theory Spec2Isabelle
  imports Complex_Main "HOL-Library.Sublist"
begin

section \<open>Six Nations predictor: data model\<close>

text \<open>
  The Python sources compute with floats; here every float is a \<^typ>\<open>real\<close>, so the
  arithmetic of the main model is exact. The rounding of IEEE doubles is modelled apart, for
  the one step where a statement depends on it (the win probability, see
  \<open>win_probability_double\<close>).
\<close>

text \<open>A row of the rating table (\<open>six_nations_squads_FINAL.csv\<close>). A missing name cell
  (pandas NaN) is \<open>None\<close>.\<close>

record rating =
  country :: string
  name :: "string option"
  position_group :: string
  skill :: real

text \<open>A row of the match-ready squad table: the rating columns plus \<open>starting\<close> and
  \<open>shirt_number\<close>.\<close>

record squad_row = rating +
  starting :: int
  shirt_number :: int

text \<open>A pandas frame of squad rows. \<open>NoColumns\<close> is the frame that \<open>pd.DataFrame([])\<close>
  builds from an empty list of records: it has no row and no column at all. \<open>Frame s rs\<close>
  is a frame with the columns \<open>country\<close>, \<open>name\<close>, \<open>position_group\<close>, \<open>skill\<close> and
  \<open>starting\<close>, and with the column \<open>shirt_number\<close> when \<open>s\<close> holds (the one column whose
  presence the code itself tests); \<open>rs\<close> are its rows in table order.\<close>

datatype squad_table = NoColumns | Frame bool "squad_row list"

fun has_shirt_number :: "squad_table \<Rightarrow> bool" where
  "has_shirt_number NoColumns = False"
| "has_shirt_number (Frame s rs) = s"

fun rows :: "squad_table \<Rightarrow> squad_row list" where
  "rows NoColumns = []"
| "rows (Frame s rs) = rs"

text \<open>Boolean-mask selection \<open>df[mask]\<close> and \<open>df.empty\<close>. A mask is built from a column of
  the frame, so no selection is ever made on \<open>NoColumns\<close>: building the mask raises first
  (see \<open>get_tactical_metrics\<close>).\<close>

fun select :: "(squad_row \<Rightarrow> bool) \<Rightarrow> squad_table \<Rightarrow> squad_table" where
  "select P NoColumns = NoColumns"
| "select P (Frame s rs) = Frame s (filter P rs)"

definition empty :: "squad_table \<Rightarrow> bool" where
  "empty df \<longleftrightarrow> rows df = []"

text \<open>The exceptions that the modelled code raises; a function that can raise returns
  \<open>Inl\<close> of the exception.\<close>

datatype py_exception =
    ZeroDivisionError
  | KeyError string
  | ValueError string
  | TypeError string
  | FileNotFoundError string
  | RuntimeError string

text \<open>\<open>Series.mean()\<close> of a non-empty column.\<close>

definition mean :: "real list \<Rightarrow> real" where
  "mean xs = sum_list xs / real (length xs)"

definition skill_mean :: "squad_table \<Rightarrow> real" where
  "skill_mean df = mean (map skill (rows df))"

record params =
  HOME_ADVANTAGE :: real
  STD_DEV :: real
  WEIGHT_MODEL_TACTICAL :: real
  WEIGHT_MODEL_ELO :: real
  WEIGHT_PACK :: real
  WEIGHT_CONTROL :: real
  WEIGHT_STRIKE :: real
  WEIGHT_STARTERS :: real
  WEIGHT_BENCH :: real
  TACTICAL_SCALING_FACTOR :: real
  ELO_SCALING :: real
  MISMATCH_THRESHOLD :: real
  MISMATCH_BONUS :: real

definition DEFAULT_CONFIG :: params where
  "DEFAULT_CONFIG = \<lparr>
     HOME_ADVANTAGE = 2,
     STD_DEV = 13.5,
     WEIGHT_MODEL_TACTICAL = 0.65,
     WEIGHT_MODEL_ELO = 0.35,
     WEIGHT_PACK = 0.40,
     WEIGHT_CONTROL = 0.35,
     WEIGHT_STRIKE = 0.25,
     WEIGHT_STARTERS = 0.80,
     WEIGHT_BENCH = 0.20,
     TACTICAL_SCALING_FACTOR = 0.85,
     ELO_SCALING = 0.7,
     MISMATCH_THRESHOLD = 4,
     MISMATCH_BONUS = 5 \<rparr>"

text \<open>The static ELO table and \<open>dict.get(key, default)\<close>.\<close>

definition WR_ELO :: "string \<rightharpoonup> real" where
  "WR_ELO = [''Ireland'' \<mapsto> 87.97, ''France'' \<mapsto> 87.24, ''England'' \<mapsto> 89.41,
             ''Scotland'' \<mapsto> 80.22, ''Italy'' \<mapsto> 78.98, ''Wales'' \<mapsto> 74.23]"

definition dict_get :: "('k \<rightharpoonup> 'v) \<Rightarrow> 'k \<Rightarrow> 'v \<Rightarrow> 'v" where
  "dict_get m k d = (case m k of Some v \<Rightarrow> v | None \<Rightarrow> d)"

section \<open>Squad aggregator (\<open>match_predictor.py\<close>)\<close>

definition get_unit_average :: "squad_table \<Rightarrow> string \<Rightarrow> real" where
  "get_unit_average df_subset unit_type =
    (if empty df_subset then 70
     else if unit_type = ''Pack'' then
       (let pack = select (\<lambda>r. position_group r = ''Forwards'') df_subset
        in if \<not> empty pack then skill_mean pack else 70)
     else if unit_type = ''Control'' then
       (let halfbacks = select (\<lambda>r. shirt_number r \<in> {9, 10}) df_subset
        in if has_shirt_number df_subset \<and> \<not> empty halfbacks then skill_mean halfbacks
           else (let backs = select (\<lambda>r. position_group r = ''Backs'') df_subset
                 in if \<not> empty backs then skill_mean backs else 70))
     else if unit_type = ''Strike'' then
       (let backs = select (\<lambda>r. position_group r = ''Backs'') df_subset;
            strike = select (\<lambda>r. shirt_number r \<notin> {9, 10}) backs
        in if has_shirt_number df_subset \<and> \<not> empty strike then skill_mean strike
           else if \<not> empty backs then skill_mean backs else 70)
     else 70)"

record metrics =
  total_score :: real
  pack_xv :: real
  pack_bench :: real

text \<open>\<open>df['country']\<close> raises \<open>KeyError\<close> on the frame without columns, before the test
  \<open>squad.empty\<close> is reached.\<close>

definition get_tactical_metrics ::
    "squad_table \<Rightarrow> string \<Rightarrow> params \<Rightarrow> py_exception + metrics option" where
  "get_tactical_metrics df cntry params =
    (case df of
       NoColumns \<Rightarrow> Inl (KeyError ''country'')
     | Frame s rs \<Rightarrow>
      (let squad = select (\<lambda>r. country r = cntry) df in
       if empty squad then Inr None
       else
        (let starters = select (\<lambda>r. starting r = 1) squad;
             bench = select (\<lambda>r. starting r = 0) squad;
             xv_pack = get_unit_average (select (\<lambda>r. position_group r = ''Forwards'') starters) ''Pack'';
             xv_control = get_unit_average (select (\<lambda>r. position_group r = ''Backs'') starters) ''Control'';
             xv_strike = get_unit_average (select (\<lambda>r. position_group r = ''Backs'') starters) ''Strike'';
             score_xv = xv_pack * WEIGHT_PACK params + xv_control * WEIGHT_CONTROL params
                        + xv_strike * WEIGHT_STRIKE params;
             bn_pack = get_unit_average (select (\<lambda>r. position_group r = ''Forwards'') bench) ''Pack'';
             bn_control = get_unit_average (select (\<lambda>r. position_group r = ''Backs'') bench) ''Control'';
             bn_strike = get_unit_average (select (\<lambda>r. position_group r = ''Backs'') bench) ''Strike'';
             score_bench = bn_pack * WEIGHT_PACK params + bn_control * WEIGHT_CONTROL params
                           + bn_strike * WEIGHT_STRIKE params;
             total = score_xv * WEIGHT_STARTERS params + score_bench * WEIGHT_BENCH params
         in Inr (Some \<lparr>total_score = total, pack_xv = xv_pack, pack_bench = bn_pack\<rparr>))))"

section \<open>Fusion model (\<open>match_predictor.py\<close>)\<close>

text \<open>\<open>math.erf\<close>: the error function, as its Maclaurin series
  \<open>2/\<surd>\<pi> \<cdot> \<Sum>k. (-1)^k x^(2k+1) / (k! (2k+1))\<close>, written as a power series in \<open>x\<close>.\<close>

definition erf_coeff :: "nat \<Rightarrow> real" where
  "erf_coeff n = (if odd n then (- 1) ^ (n div 2) / (fact (n div 2) * real n) else 0)"

definition erf_series :: "real \<Rightarrow> real" where
  "erf_series x = (\<Sum>n. erf_coeff n * x ^ n)"

definition erf :: "real \<Rightarrow> real" where
  "erf x = 2 / sqrt pi * erf_series x"

record debug_info =
  tactical :: real
  elo :: real
  pack_diff :: real

record fixture =
  home :: string
  away :: string

record prediction = fixture +
  margin :: real
  prob :: real
  debug :: debug_info

text \<open>The two shapes of the returned dict: \<open>{"error": msg}\<close> or the prediction.\<close>

datatype sim_result = Error string | Prediction prediction

text \<open>The division \<open>final_margin / params["STD_DEV"]\<close>. On Python floats a zero divisor
  raises \<open>ZeroDivisionError\<close>; when \<open>final_margin\<close> is a numpy float (it is one whenever a
  unit average came from \<open>mean()\<close>) the source warns and yields an infinity or a NaN
  instead, values that the reals do not have. Either way there is no quotient, which is
  the \<open>Inl\<close> branch here; every statement below on a prediction assumes a non-zero
  \<open>STD_DEV\<close>.\<close>

definition py_truediv :: "real \<Rightarrow> real \<Rightarrow> py_exception + real" where
  "py_truediv a b = (if b = 0 then Inl ZeroDivisionError else Inr (a / b))"

text \<open>An exception of either call of \<open>get_tactical_metrics\<close> leaves \<open>simulate_match\<close>;
  \<open>if not h_metrics or not a_metrics\<close> holds when either profile is \<open>None\<close>.\<close>

definition simulate_match ::
    "string \<Rightarrow> string \<Rightarrow> squad_table \<Rightarrow> params \<Rightarrow> py_exception + sim_result" where
  "simulate_match hm aw df params =
    (case get_tactical_metrics df hm params of
       Inl e \<Rightarrow> Inl e
     | Inr h_opt \<Rightarrow>
    (case get_tactical_metrics df aw params of
       Inl e \<Rightarrow> Inl e
     | Inr a_opt \<Rightarrow>
    (case (h_opt, a_opt) of
       (Some h_metrics, Some a_metrics) \<Rightarrow>
         (let margin_tactical0 = (total_score h_metrics - total_score a_metrics)
                                 * TACTICAL_SCALING_FACTOR params;
              pack_total_home = 0.7 * pack_xv h_metrics + 0.3 * pack_bench h_metrics;
              pack_total_away = 0.7 * pack_xv a_metrics + 0.3 * pack_bench a_metrics;
              pd = pack_total_home - pack_total_away;
              margin_tactical =
                (if pd > MISMATCH_THRESHOLD params then margin_tactical0 + MISMATCH_BONUS params
                 else if pd < - MISMATCH_THRESHOLD params then margin_tactical0 - MISMATCH_BONUS params
                 else margin_tactical0);
              elo_h = dict_get WR_ELO hm 75;
              elo_a = dict_get WR_ELO aw 75;
              margin_elo = (elo_h - elo_a) * ELO_SCALING params;
              final_margin = margin_tactical * WEIGHT_MODEL_TACTICAL params
                             + margin_elo * WEIGHT_MODEL_ELO params
                             + HOME_ADVANTAGE params
          in case py_truediv final_margin (STD_DEV params) of
               Inl e \<Rightarrow> Inl e
             | Inr z_score \<Rightarrow>
                 Inr (Prediction \<lparr>home = hm, away = aw, margin = final_margin,
                        prob = 0.5 * (1 + erf (z_score / sqrt 2)),
                        debug = \<lparr>tactical = margin_tactical, elo = margin_elo, pack_diff = pd\<rparr>\<rparr>))
     | _ \<Rightarrow> Inr (Error (''Missing data in CSV for '' @ hm @ '' or '' @ aw)))))"

text \<open>The last two lines of the fusion, \<open>z_score = final_margin / params["STD_DEV"]\<close> and
  \<open>prob_home = 0.5 * (1 + math.erf(z_score / math.sqrt(2)))\<close>, in the double arithmetic that
  the program runs in. \<open>round_double\<close> rounds a real to the nearest binary64 number, ties
  to the even significand (53 significant bits; overflow and subnormal numbers are left
  out, they are not met below). Every operation yields the rounded exact result;
  \<open>math.sqrt\<close> and \<open>math.erf\<close> are taken as correctly rounded. The arguments are doubles
  and \<open>std_dev\<close> is not zero.\<close>

definition round_half_even :: "real \<Rightarrow> int" where
  "round_half_even x =
    (let f = \<lfloor>x\<rfloor>; d = x - of_int f
     in if d < 1 / 2 then f else if d > 1 / 2 then f + 1 else if even f then f else f + 1)"

definition round_double :: "real \<Rightarrow> real" where
  "round_double x =
    (if x = 0 then 0
     else (let e = \<lfloor>log 2 \<bar>x\<bar>\<rfloor>;
               ulp = 2 powr (of_int e - 52)
           in of_int (round_half_even (x / ulp)) * ulp))"

definition win_probability_double :: "real \<Rightarrow> real \<Rightarrow> real" where
  "win_probability_double final_margin std_dev =
    (let z_score = round_double (final_margin / std_dev);
         x = round_double (z_score / round_double (sqrt 2));
         e = round_double (erf x);
         s = round_double (1 + e)
     in round_double (0.5 * s))"

section \<open>Identity resolver (\<open>squad_builder.py\<close>)\<close>

text \<open>\<open>str.strip()\<close> and \<open>str.lower()\<close> on the ASCII range: the white space that
  \<open>strip\<close> removes, and the letters \<open>A\<close> to \<open>Z\<close> that \<open>lower\<close> maps; every other byte is
  left as it is.\<close>

definition is_space :: "char \<Rightarrow> bool" where
  "is_space c \<longleftrightarrow>
     c \<in> set [CHR 0x09, CHR 0x0A, CHR 0x0B, CHR 0x0C, CHR 0x0D,
              CHR 0x1C, CHR 0x1D, CHR 0x1E, CHR 0x1F, CHR '' '']"

definition strip :: "string \<Rightarrow> string" where
  "strip s = rev (dropWhile is_space (rev (dropWhile is_space s)))"

definition lower_char :: "char \<Rightarrow> char" where
  "lower_char c =
     (case map_of (zip ''ABCDEFGHIJKLMNOPQRSTUVWXYZ'' ''abcdefghijklmnopqrstuvwxyz'') c of
        Some l \<Rightarrow> l
      | None \<Rightarrow> c)"

definition lower :: "string \<Rightarrow> string" where
  "lower s = map lower_char s"

definition normalize_name :: "string option \<Rightarrow> string" where
  "normalize_name nm = (case nm of None \<Rightarrow> [] | Some s \<Rightarrow> lower (strip s))"

text \<open>Python's \<open>a in b\<close> on strings is \<^term>\<open>sublist a b\<close>. The \<open>for\<close> loop with its early
  \<open>return row\<close> is \<^const>\<open>List.find\<close>.\<close>

definition name_contains :: "string \<Rightarrow> rating \<Rightarrow> bool" where
  "name_contains clean_name row =
     (let db_name = normalize_name (name row)
      in sublist clean_name db_name \<or> sublist db_name clean_name)"

definition match_player_data :: "string option \<Rightarrow> string \<Rightarrow> rating list \<Rightarrow> rating option" where
  "match_player_data player_name cntry db_df =
    (let clean_name = normalize_name player_name;
         country_db = filter (\<lambda>r. lower (country r) = lower cntry) db_df;
         found = filter (\<lambda>r. normalize_name (name r) = clean_name) country_db
     in if length found > 0 then Some (hd found)
        else List.find (name_contains clean_name) country_db)"

text \<open>\<open>Series.quantile(q)\<close> with pandas' default linear interpolation, on a non-empty
  column: position \<open>(n - 1) q\<close> in the sorted values.\<close>

definition quantile :: "real list \<Rightarrow> real \<Rightarrow> real" where
  "quantile xs q =
    (let s = sort xs;
         h = real (length xs - 1) * q;
         i = nat \<lfloor>h\<rfloor>;
         frac = h - real i
     in if Suc i < length s then s ! i + (s ! Suc i - s ! i) * frac else s ! i)"

definition get_country_fallback_skill :: "string \<Rightarrow> rating list \<Rightarrow> real" where
  "get_country_fallback_skill cntry db_df =
    (let country_db = filter (\<lambda>r. lower (country r) = lower cntry) db_df
     in if country_db = [] then 70 else quantile (map skill country_db) 0.25)"

section \<open>Lineup resolution (\<open>load_match_squads\<close> in \<open>optimize_params.py\<close>)\<close>

definition infer_position_group :: "int \<Rightarrow> string" where
  "infer_position_group jersey_number =
    (if jersey_number \<in> {1, 2, 3, 4, 5, 6, 7, 8, 16, 17, 18, 19, 20} then ''Forwards'' else ''Backs'')"

text \<open>A row of the lineup sheet: \<open>Number\<close> is the result of \<open>int(row["Number"])\<close>
  (\<open>None\<close> when it raises and the row is skipped); a name cell is \<open>None\<close> when it is NaN.\<close>

record lineup_row =
  Number :: "int option"
  team1_cell :: "string option"
  team2_cell :: "string option"

text \<open>The body of one \<open>if col_team in row and not pd.isna(row[col_team])\<close> block.\<close>

definition resolve_player :: "string \<Rightarrow> real \<Rightarrow> rating list \<Rightarrow> int \<Rightarrow> string \<Rightarrow> squad_row" where
  "resolve_player team fallback df_db jersey_number player =
    (let is_starting = (if jersey_number \<le> 15 then 1 else 0)
     in case match_player_data (Some player) team df_db of
          Some data \<Rightarrow>
            \<lparr>country = team, name = name data, position_group = position_group data,
             skill = skill data, starting = is_starting, shirt_number = jersey_number\<rparr>
        | None \<Rightarrow>
            \<lparr>country = team, name = Some player,
             position_group = infer_position_group jersey_number,
             skill = fallback, starting = is_starting, shirt_number = jersey_number\<rparr>)"

fun process_rows ::
    "string \<Rightarrow> string \<Rightarrow> real \<Rightarrow> real \<Rightarrow> rating list \<Rightarrow> lineup_row list \<Rightarrow> squad_row list" where
  "process_rows team1 team2 fallback_t1 fallback_t2 df_db [] = []"
| "process_rows team1 team2 fallback_t1 fallback_t2 df_db (row # rest) =
    (case Number row of
       None \<Rightarrow> process_rows team1 team2 fallback_t1 fallback_t2 df_db rest
     | Some jersey_number \<Rightarrow>
         (case team1_cell row of
            None \<Rightarrow> []
          | Some player1 \<Rightarrow> [resolve_player team1 fallback_t1 df_db jersey_number player1])
         @ (case team2_cell row of
            None \<Rightarrow> []
          | Some player2 \<Rightarrow> [resolve_player team2 fallback_t2 df_db jersey_number player2])
         @ process_rows team1 team2 fallback_t1 fallback_t2 df_db rest)"

text \<open>The pure part of \<open>load_match_squads\<close>: from the rating table and the lineup sheet to
  the squad table. Reading the two files is outside the model. \<open>pd.DataFrame(match_squad)\<close>
  takes its columns from the records, so an empty list gives the frame without columns.\<close>

definition build_match_squad ::
    "string \<Rightarrow> string \<Rightarrow> rating list \<Rightarrow> lineup_row list \<Rightarrow> squad_table" where
  "build_match_squad team1 team2 df_db df_match =
    (let fallback_t1 = get_country_fallback_skill team1 df_db;
         fallback_t2 = get_country_fallback_skill team2 df_db;
         match_squad = process_rows team1 team2 fallback_t1 fallback_t2 df_db df_match
     in if match_squad = [] then NoColumns else Frame True match_squad)"

section \<open>Calibrator (\<open>optimize_params.py\<close>)\<close>

record real_result = fixture +
  home_score :: int
  away_score :: int
  match_file :: string

definition REAL_RESULTS :: "real_result list" where
  "REAL_RESULTS =
    [\<lparr>home = ''France'', away = ''Ireland'', home_score = 36, away_score = 14,
       match_file = ''France-Ireland.xlsx''\<rparr>,
     \<lparr>home = ''Italy'', away = ''Scotland'', home_score = 18, away_score = 15,
       match_file = ''Italy-Scotland.xlsx''\<rparr>,
     \<lparr>home = ''England'', away = ''Wales'', home_score = 48, away_score = 7,
       match_file = ''England-Wales.xlsx''\<rparr>,
     \<lparr>home = ''Scotland'', away = ''England'', home_score = 31, away_score = 20,
       match_file = ''Scotland-England.xlsx''\<rparr>,
     \<lparr>home = ''Wales'', away = ''France'', home_score = 12, away_score = 54,
       match_file = ''Wales-France.xlsx''\<rparr>,
     \<lparr>home = ''Ireland'', away = ''Italy'', home_score = 20, away_score = 13,
       match_file = ''Ireland-Italy.xlsx''\<rparr>]"

record calib_metrics =
  rmse :: real
  mae :: real
  max_error :: real
  correct_winners :: int
  accuracy :: real

text \<open>The \<open>for pred, real in zip(predictions, real_results)\<close> loop: the absolute errors in
  order and the count of correct winners. \<open>pred["margin"]\<close> raises \<open>KeyError\<close> on a dict that
  holds only \<open>"error"\<close>.\<close>

fun score_loop :: "sim_result list \<Rightarrow> real_result list \<Rightarrow> py_exception + (real list \<times> int)" where
  "score_loop (pred # preds) (rl # reals) =
    (let real_margin = real_of_int (home_score rl - away_score rl)
     in case pred of
          Error msg \<Rightarrow> Inl (KeyError ''margin'')
        | Prediction p \<Rightarrow>
            (let pred_margin = margin p;
                 err = \<bar>pred_margin - real_margin\<bar>;
                 hit = (if (real_margin > 0 \<and> pred_margin > 0)
                           \<or> (real_margin < 0 \<and> pred_margin < 0)
                           \<or> (real_margin = 0 \<and> \<bar>pred_margin\<bar> < 3) then 1 else 0)
             in case score_loop preds reals of
                  Inl e \<Rightarrow> Inl e
                | Inr (errors, correct) \<Rightarrow> Inr (err # errors, hit + correct)))"
| "score_loop _ _ = Inr ([], 0)"

text \<open>The metrics of the errors; \<open>np.max\<close> raises on an empty array (an empty
  \<open>real_results\<close>).\<close>

definition calculate_metrics :: "sim_result list \<Rightarrow> real_result list \<Rightarrow> py_exception + calib_metrics" where
  "calculate_metrics predictions real_results =
    (if predictions = [] then Inl (ValueError ''Predictions list is empty.'')
     else case score_loop predictions real_results of
            Inl e \<Rightarrow> Inl e
          | Inr (errors, correct) \<Rightarrow>
              if errors = [] then
                Inl (ValueError ''zero-size array to reduction operation maximum which has no identity'')
              else
              Inr \<lparr>rmse = sqrt (mean (map (\<lambda>e. e\<^sup>2) errors)),
                   mae = mean errors,
                   max_error = Max (set errors),
                   correct_winners = correct,
                   accuracy = real_of_int correct / real (length real_results) * 100\<rparr>)"

text \<open>The \<open>try\<close> block of \<open>evaluate_params\<close>: any exception of loading or predicting one
  match ends the loop with \<open>None\<close>. The loader (file reading and \<open>load_match_squads\<close>) is a
  parameter of the model.\<close>

fun collect_predictions ::
    "(string \<Rightarrow> py_exception + squad_table) \<Rightarrow> params \<Rightarrow> real_result list \<Rightarrow> sim_result list option" where
  "collect_predictions load_match_squads config [] = Some []"
| "collect_predictions load_match_squads config (mtch # rest) =
    (case load_match_squads (match_file mtch) of
       Inl exc \<Rightarrow> None
     | Inr df \<Rightarrow>
        (case simulate_match (home mtch) (away mtch) df config of
           Inl exc \<Rightarrow> None
         | Inr pred \<Rightarrow>
            (case collect_predictions load_match_squads config rest of
               None \<Rightarrow> None
             | Some preds \<Rightarrow> Some (pred # preds))))"

definition evaluate_params ::
    "(string \<Rightarrow> py_exception + squad_table) \<Rightarrow> real \<Rightarrow> real \<Rightarrow> py_exception + calib_metrics option" where
  "evaluate_params load_match_squads tactical_weight home_advantage_pts =
    (let config = DEFAULT_CONFIG\<lparr>WEIGHT_MODEL_TACTICAL := tactical_weight,
                                 WEIGHT_MODEL_ELO := 1 - tactical_weight,
                                 HOME_ADVANTAGE := home_advantage_pts\<rparr>
     in case collect_predictions load_match_squads config REAL_RESULTS of
          None \<Rightarrow> Inr None
        | Some predictions \<Rightarrow>
            (case calculate_metrics predictions REAL_RESULTS of
               Inl e \<Rightarrow> Inl e
             | Inr m \<Rightarrow> Inr (Some m)))"

record grid_result =
  tactical_weight :: real
  elo_weight :: real
  home_advantage :: real
  scores :: calib_metrics

text \<open>\<open>round(x, 2)\<close>: to the nearest hundredth, ties to the even one.\<close>

definition py_round2 :: "real \<Rightarrow> real" where
  "py_round2 x =
    (let y = x * 100; f = \<lfloor>y\<rfloor>
     in if y - real_of_int f < 1 / 2 then real_of_int f / 100
        else if y - real_of_int f > 1 / 2 then real_of_int (f + 1) / 100
        else real_of_int (if even f then f else f + 1) / 100)"

definition tactical_weights :: "real list" where
  "tactical_weights = [0.50, 0.55, 0.60, 0.65, 0.70, 0.75, 0.80]"

definition home_advantages :: "real list" where
  "home_advantages = [0, 1, 2, 3, 4, 5]"

text \<open>The nested \<open>for\<close> loops of \<open>grid_search\<close> over the combinations in order, with the
  state \<open>(results, best_rmse, best_params)\<close>; \<open>best_rmse\<close> starts at infinity, which is
  \<open>None\<close> here. An exception of \<open>evaluate_params\<close> leaves the loop.\<close>

fun grid_loop ::
    "(string \<Rightarrow> py_exception + squad_table) \<Rightarrow> (real \<times> real) list \<Rightarrow>
     grid_result list \<times> grid_result option \<Rightarrow> py_exception + (grid_result list \<times> grid_result option)" where
  "grid_loop load_match_squads [] st = Inr st"
| "grid_loop load_match_squads ((tactical_w, home_adv) # rest) (results, best_params) =
    (case evaluate_params load_match_squads tactical_w home_adv of
       Inl e \<Rightarrow> Inl e
     | Inr None \<Rightarrow> grid_loop load_match_squads rest (results, best_params)
     | Inr (Some m) \<Rightarrow>
        (let result = \<lparr>tactical_weight = tactical_w, elo_weight = py_round2 (1 - tactical_w),
                         home_advantage = home_adv, scores = m\<rparr>;
             best' = (case best_params of
                        None \<Rightarrow> Some result
                      | Some b \<Rightarrow> if rmse m < rmse (scores b) then Some result else Some b)
         in grid_loop load_match_squads rest (results @ [result], best')))"

text \<open>\<open>grid_search\<close> after the loop: no result raises; the default configuration is
  evaluated once more for the comparison, whose \<open>current_metrics["rmse"]\<close> raises on \<open>None\<close>
  and whose relative improvement divides by the current RMSE. The table is returned sorted
  by RMSE.\<close>

definition grid_search ::
    "(string \<Rightarrow> py_exception + squad_table) \<Rightarrow> py_exception + (grid_result option \<times> grid_result list)" where
  "grid_search load_match_squads =
    (case grid_loop load_match_squads (List.product tactical_weights home_advantages) ([], None) of
       Inl e \<Rightarrow> Inl e
     | Inr (results, best_params) \<Rightarrow>
        if results = [] then
          Inl (RuntimeError ''No parameter combination could be evaluated successfully.'')
        else
          (case evaluate_params load_match_squads (WEIGHT_MODEL_TACTICAL DEFAULT_CONFIG)
                  (HOME_ADVANTAGE DEFAULT_CONFIG) of
             Inl e \<Rightarrow> Inl e
           | Inr None \<Rightarrow> Inl (TypeError ''NoneType object is not subscriptable'')
           | Inr (Some current_metrics) \<Rightarrow>
               if rmse current_metrics = 0 then Inl ZeroDivisionError
               else Inr (best_params, sort_key (\<lambda>r. rmse (scores r)) results)))"

section \<open>Notions of the specification\<close>

text \<open>The standard normal distribution: cumulative distribution function \<open>\<Phi>\<close> in its
  closed form by the error function, and the density it integrates.\<close>

definition std_normal_cdf :: "real \<Rightarrow> real" where
  "std_normal_cdf z = 1 / 2 * (1 + erf (z / sqrt 2))"

definition std_normal_density :: "real \<Rightarrow> real" where
  "std_normal_density z = exp (- (z\<^sup>2) / 2) / sqrt (2 * pi)"

text \<open>The candidates of a team: the rating records of its country, in table order (the
  local \<open>country_db\<close> of \<open>match_player_data\<close> and \<open>get_country_fallback_skill\<close>).\<close>

definition country_db :: "string \<Rightarrow> rating list \<Rightarrow> rating list" where
  "country_db cntry db_df = filter (\<lambda>r. lower (country r) = lower cntry) db_df"

text \<open>The rows of a team in a squad table, and the rows of one of its four unit subsets
  (starters or bench, forwards or backs).\<close>

definition team_rows :: "squad_table \<Rightarrow> string \<Rightarrow> squad_row list" where
  "team_rows df cntry = filter (\<lambda>r. country r = cntry) (rows df)"

definition unit_rows :: "squad_table \<Rightarrow> string \<Rightarrow> int \<Rightarrow> string \<Rightarrow> squad_row list" where
  "unit_rows df cntry s pg =
     filter (\<lambda>r. position_group r = pg) (filter (\<lambda>r. starting r = s) (team_rows df cntry))"

text \<open>The profile of a team whose rows all have skill \<open>c\<close>: each unit is \<open>c\<close> when its subset
  has a row and \<open>70\<close> when it has none.\<close>

definition unit_value :: "squad_table \<Rightarrow> string \<Rightarrow> int \<Rightarrow> string \<Rightarrow> real \<Rightarrow> real" where
  "unit_value df cntry s pg c = (if unit_rows df cntry s pg = [] then 70 else c)"

text \<open>Reading a result of \<open>simulate_match\<close>.\<close>

definition is_error_result :: "py_exception + sim_result \<Rightarrow> bool" where
  "is_error_result res = (case res of Inr (Error msg) \<Rightarrow> True | _ \<Rightarrow> False)"

definition result_margin :: "py_exception + sim_result \<Rightarrow> real option" where
  "result_margin res = (case res of Inr (Prediction p) \<Rightarrow> Some (margin p) | _ \<Rightarrow> None)"


definition result_tactical :: "py_exception + sim_result \<Rightarrow> real option" where
  "result_tactical res = (case res of Inr (Prediction p) \<Rightarrow> Some (tactical (debug p)) | _ \<Rightarrow> None)"

definition result_pack_diff :: "py_exception + sim_result \<Rightarrow> real option" where
  "result_pack_diff res = (case res of Inr (Prediction p) \<Rightarrow> Some (pack_diff (debug p)) | _ \<Rightarrow> None)"

section \<open>Auxiliary functions for the bound on the error function\<close>

text \<open>\<open>cos_int k t\<close> is the integral of \<open>cos ^ k\<close> from \<open>0\<close> to \<open>t\<close>, by the reduction
  formula; \<open>wallis k\<close> is its value at \<open>\<pi>/2\<close>; \<open>gauss_major m\<close> is the integral of
  \<open>(1 + x\<^sup>2/(m+1)) ^ -(m+1)\<close>, which dominates that of \<open>exp (- x\<^sup>2)\<close>.\<close>

fun cos_int :: "nat \<Rightarrow> real \<Rightarrow> real" where
  "cos_int 0 t = t"
| "cos_int (Suc 0) t = sin t"
| "cos_int (Suc (Suc k)) t =
     (cos t ^ Suc k * sin t + real (Suc k) * cos_int k t) / real (Suc (Suc k))"

definition wallis :: "nat \<Rightarrow> real" where
  "wallis k = cos_int k (pi / 2)"

definition gauss_major :: "nat \<Rightarrow> real \<Rightarrow> real" where
  "gauss_major m x = sqrt (real (Suc m)) * cos_int (2 * m) (arctan (x / sqrt (real (Suc m))))"

section \<open>Example inputs\<close>

text \<open>A squad table with one starting and one bench forward per team, of skill \<open>h\<close> for
  France and \<open>a\<close> for Ireland: the blended pack difference is \<open>h - a\<close>.\<close>

definition pack_table :: "real \<Rightarrow> real \<Rightarrow> squad_table" where
  "pack_table h a =
    Frame True
      [\<lparr>country = ''France'', name = Some ''Cyril Baille'', position_group = ''Forwards'',
         skill = h, starting = 1, shirt_number = 1\<rparr>,
       \<lparr>country = ''France'', name = Some ''Romain Taofifenua'', position_group = ''Forwards'',
         skill = h, starting = 0, shirt_number = 19\<rparr>,
       \<lparr>country = ''Ireland'', name = Some ''Andrew Porter'', position_group = ''Forwards'',
         skill = a, starting = 1, shirt_number = 1\<rparr>,
       \<lparr>country = ''Ireland'', name = Some ''Iain Henderson'', position_group = ''Forwards'',
         skill = a, starting = 0, shirt_number = 19\<rparr>]"

text \<open>A squad of skill-75 players by shirt numbers: the position group follows the shirt
  number, and numbers up to 15 start.\<close>

definition squad_of :: "string \<Rightarrow> int list \<Rightarrow> squad_row list" where
  "squad_of team numbers =
     map (\<lambda>n. \<lparr>country = team, name = Some ''Player'',
                position_group = infer_position_group n, skill = 75,
                starting = (if n \<le> 15 then 1 else 0), shirt_number = n\<rparr>) numbers"

text \<open>Two unlisted teams (ELO 75 both) with 15 starters and 5 substitutes each, three
  forwards and two backs on either bench.\<close>

definition even_table :: squad_table where
  "even_table =
     Frame True
        (squad_of ''Georgia'' [1, 2, 3, 4, 5, 6, 7, 8, 9, 10, 11, 12, 13, 14, 15, 16, 17, 18, 21, 22]
           @ squad_of ''Portugal'' [1, 2, 3, 4, 5, 6, 7, 8, 9, 10, 11, 12, 13, 14, 15, 16, 17, 18, 21, 22])"

text \<open>The same two teams with 15 starters and two substitutes each: a forward and a back
  for Georgia, two forwards for Portugal.\<close>

definition uneven_bench_table :: squad_table where
  "uneven_bench_table =
     Frame True
        (squad_of ''Georgia'' [1, 2, 3, 4, 5, 6, 7, 8, 9, 10, 11, 12, 13, 14, 15, 16, 21]
           @ squad_of ''Portugal'' [1, 2, 3, 4, 5, 6, 7, 8, 9, 10, 11, 12, 13, 14, 15, 16, 17])"

text \<open>A table where France has a single bench back and Ireland a single starting forward.\<close>

definition sparse_table :: squad_table where
  "sparse_table =
     Frame True
       [\<lparr>country = ''France'', name = Some ''Thomas Ramos'', position_group = ''Backs'',
          skill = 80, starting = 0, shirt_number = 22\<rparr>,
        \<lparr>country = ''Ireland'', name = Some ''Andrew Porter'', position_group = ''Forwards'',
          skill = 75, starting = 1, shirt_number = 1\<rparr>]"

text \<open>A rating table where, for France, a longer name containing "antoine dupont" comes
  before the record of that exact name, and "Greg" comes after a name that contains it.\<close>

definition ratings_example :: "rating list" where
  "ratings_example =
     [\<lparr>country = ''France'', name = Some ''Antoine Dupont Junior'', position_group = ''Backs'', skill = 70\<rparr>,
      \<lparr>country = ''France'', name = Some '' Antoine DUPONT'', position_group = ''Backs'', skill = 92\<rparr>,
      \<lparr>country = ''Ireland'', name = Some ''Antoine Dupont'', position_group = ''Backs'', skill = 60\<rparr>,
      \<lparr>country = ''France'', name = Some ''Gregory Alldritt'', position_group = ''Forwards'', skill = 88\<rparr>,
      \<lparr>country = ''france'', name = Some ''Greg'', position_group = ''Forwards'', skill = 50\<rparr>]"

text \<open>A rating table whose second French record has an empty name cell.\<close>

definition ratings_blank :: "rating list" where
  "ratings_blank =
     [\<lparr>country = ''France'', name = Some ''Antoine Dupont'', position_group = ''Backs'', skill = 92\<rparr>,
      \<lparr>country = ''France'', name = None, position_group = ''Forwards'', skill = 55\<rparr>]"

text \<open>A lineup sheet for France against Wales with names that are in no rating record.\<close>

definition lineup_example :: "lineup_row list" where
  "lineup_example =
     [\<lparr>Number = Some 4, team1_cell = Some ''Zinedine Zidane'', team2_cell = Some ''Gareth Bale''\<rparr>,
      \<lparr>Number = None, team1_cell = Some ''Coach'', team2_cell = None\<rparr>,
      \<lparr>Number = Some 21, team1_cell = Some ''Michel Platini'', team2_cell = None\<rparr>]"

text \<open>A lineup sheet for France against Ireland whose shirt numbers are filled and whose
  name cells are all empty.\<close>

definition lineup_no_names :: "lineup_row list" where
  "lineup_no_names =
     [\<lparr>Number = Some 1, team1_cell = None, team2_cell = None\<rparr>,
      \<lparr>Number = Some 2, team1_cell = None, team2_cell = None\<rparr>]"

text \<open>A loader for the six historical matches: for each match file the squad table built
  from a one-row lineup sheet of the two teams of the file. In the sheet of
  \<open>France-Ireland.xlsx\<close> the cell of the second team is empty.\<close>

definition blank_away_loader :: "string \<Rightarrow> py_exception + squad_table" where
  "blank_away_loader file =
    (case List.find (\<lambda>m. match_file m = file) REAL_RESULTS of
       None \<Rightarrow> Inl (FileNotFoundError file)
     | Some m \<Rightarrow>
         Inr (build_match_squad (home m) (away m) ratings_example
               [\<lparr>Number = Some 1, team1_cell = Some ''Loosehead One'',
                 team2_cell = (if file = ''France-Ireland.xlsx'' then None
                               else Some ''Loosehead Two'')\<rparr>]))"

section \<open>The error function\<close>

subsection \<open>The series converges and differentiates to the Gaussian\<close>

lemma erf_term_summable: "summable (\<lambda>m. (- 1) ^ m * y ^ (2 * m + 1) / (fact m * real (2 * m + 1)))"
proof (rule summable_comparison_test)
  show "summable (\<lambda>m. \<bar>y\<bar> * (inverse (fact m) * (y\<^sup>2) ^ m))"
    by (intro summable_mult summable_exp)
  show "\<exists>N. \<forall>m\<ge>N. norm ((- 1) ^ m * y ^ (2 * m + 1) / (fact m * real (2 * m + 1)))
          \<le> \<bar>y\<bar> * (inverse (fact m) * (y\<^sup>2) ^ m)"
  proof (intro exI[of _ 0] allI impI)
    fix m :: nat
    have "norm ((- 1) ^ m * y ^ (2 * m + 1) / (fact m * real (2 * m + 1)))
          = \<bar>y\<bar> * (y\<^sup>2) ^ m / (fact m * real (2 * m + 1))"
      by (simp add: abs_mult power_abs power_mult power_even_abs)
    also have "\<dots> \<le> \<bar>y\<bar> * (y\<^sup>2) ^ m / (fact m * 1)"
      by (intro divide_left_mono mult_left_mono) (auto simp: fact_gt_zero)
    finally show "norm ((- 1) ^ m * y ^ (2 * m + 1) / (fact m * real (2 * m + 1)))
          \<le> \<bar>y\<bar> * (inverse (fact m) * (y\<^sup>2) ^ m)"
      by (simp add: field_simps)
  qed
qed

lemma erf_coeff_term:
  "erf_coeff n * y ^ n =
    (if even n then 0 else (\<lambda>m. (- 1) ^ m * y ^ (2 * m + 1) / (fact m * real (2 * m + 1))) ((n - 1) div 2))"
proof (cases "even n")
  case True
  then show ?thesis by (simp add: erf_coeff_def)
next
  case False
  then obtain m where n: "n = 2 * m + 1" by (auto elim: oddE)
  show ?thesis by (simp add: erf_coeff_def n)
qed

lemma erf_series_summable: "summable (\<lambda>n. erf_coeff n * y ^ n)"
proof -
  from erf_term_summable[of y] obtain s where
    "(\<lambda>m. (- 1) ^ m * y ^ (2 * m + 1) / (fact m * real (2 * m + 1))) sums s"
    by (auto simp: summable_def)
  from sums_if'[OF this] show ?thesis
    unfolding erf_coeff_term by (auto simp: summable_def)
qed

lemma diffs_erf_coeff:
  "diffs erf_coeff n = (if even n then (- 1) ^ (n div 2) / fact (n div 2) else 0)"
proof (cases "even n")
  case True
  then obtain m where n: "n = 2 * m" by (auto elim: evenE)
  show ?thesis by (simp add: diffs_def erf_coeff_def n)
next
  case False
  then show ?thesis by (simp add: diffs_def erf_coeff_def)
qed

lemma diffs_erf_sums: "(\<lambda>n. diffs erf_coeff n * x ^ n) sums exp (- (x\<^sup>2))"
proof -
  have e: "(\<lambda>m. (- (x\<^sup>2)) ^ m /\<^sub>R fact m) sums exp (- (x\<^sup>2))"
    by (rule exp_converges)
  have z: "(\<lambda>m::nat. 0::real) sums 0" by simp
  have "(\<lambda>n. if even n then (- (x\<^sup>2)) ^ (n div 2) /\<^sub>R fact (n div 2) else 0) sums (0 + exp (- (x\<^sup>2)))"
    using sums_if[OF z e] by simp
  moreover have "(\<lambda>n. if even n then (- (x\<^sup>2)) ^ (n div 2) /\<^sub>R fact (n div 2) else 0)
        = (\<lambda>n. diffs erf_coeff n * x ^ n)"
  proof
    fix n :: nat
    show "(if even n then (- (x\<^sup>2)) ^ (n div 2) /\<^sub>R fact (n div 2) else 0) = diffs erf_coeff n * x ^ n"
    proof (cases "even n")
      case True
      then obtain m where n: "n = 2 * m" by (auto elim: evenE)
      show ?thesis
        by (simp add: diffs_erf_coeff n power_minus[of "x\<^sup>2"] divide_inverse mult_ac flip: power_mult)
    next
      case False
      then show ?thesis by (simp add: diffs_erf_coeff)
    qed
  qed
  ultimately show ?thesis by simp
qed

lemma DERIV_erf_series: "DERIV erf_series x :> exp (- (x\<^sup>2))"
proof -
  have "((\<lambda>x. \<Sum>n. erf_coeff n * x ^ n) has_field_derivative (\<Sum>n. diffs erf_coeff n * x ^ n)) (at x)"
    by (rule termdiffs_strong_converges_everywhere) (rule erf_series_summable)
  moreover have "(\<Sum>n. diffs erf_coeff n * x ^ n) = exp (- (x\<^sup>2))"
    using diffs_erf_sums[of x] by (simp add: sums_iff)
  moreover have "erf_series = (\<lambda>x. \<Sum>n. erf_coeff n * x ^ n)"
    by (auto simp: erf_series_def)
  ultimately show ?thesis by simp
qed

lemma erf_series_0: "erf_series 0 = 0"
  by (simp add: erf_series_def erf_coeff_def)

lemma erf_series_minus: "erf_series (- x) = - erf_series x"
proof -
  have "erf_coeff n * (- x) ^ n = - (erf_coeff n * x ^ n)" for n
    by (cases "even n") (simp_all add: erf_coeff_def)
  then have "erf_series (- x) = (\<Sum>n. - (erf_coeff n * x ^ n))"
    by (simp add: erf_series_def)
  also have "\<dots> = - erf_series x"
    unfolding erf_series_def by (rule suminf_minus) (rule erf_series_summable)
  finally show ?thesis .
qed

lemma erf_series_strict_mono: "x < y \<Longrightarrow> erf_series x < erf_series y"
  by (rule DERIV_pos_imp_increasing[of x y erf_series]) (auto intro: DERIV_erf_series)


subsection \<open>Integrals of powers of the cosine and the Wallis inequality\<close>

lemma DERIV_cos_int: "DERIV (cos_int k) t :> cos t ^ k"
proof (induction k t rule: cos_int.induct)
  case (1 t)
  have "cos_int 0 = (\<lambda>t. t)" by (auto simp: fun_eq_iff)
  then show ?case by simp
next
  case (2 t)
  have "cos_int (Suc 0) = sin" by (auto simp: fun_eq_iff)
  then show ?case by simp
next
  case (3 k t)
  have eq: "cos_int (Suc (Suc k)) =
     (\<lambda>t. (cos t ^ Suc k * sin t + real (Suc k) * cos_int k t) / real (Suc (Suc k)))"
    by (auto simp: fun_eq_iff)
  have s: "(sin t)\<^sup>2 = 1 - (cos t)\<^sup>2"
    by (simp add: sin_squared_eq)
  have "((\<lambda>t. (cos t ^ Suc k * sin t + real (Suc k) * cos_int k t) / real (Suc (Suc k)))
        has_field_derivative
        ((real (Suc k) * cos t ^ k * (- sin t) * sin t + cos t ^ Suc k * cos t
          + real (Suc k) * cos t ^ k) / real (Suc (Suc k)))) (at t)"
    by (auto intro!: derivative_eq_intros "3.IH" simp del: power_Suc of_nat_Suc)
  moreover have "(real (Suc k) * cos t ^ k * (- sin t) * sin t + cos t ^ Suc k * cos t
          + real (Suc k) * cos t ^ k) / real (Suc (Suc k)) = cos t ^ Suc (Suc k)"
  proof -
    have "real (Suc k) * cos t ^ k * (- sin t) * sin t + cos t ^ Suc k * cos t
          + real (Suc k) * cos t ^ k
        = real (Suc k) * cos t ^ k * (1 - (sin t)\<^sup>2) + cos t ^ Suc (Suc k)"
      by (simp add: algebra_simps power2_eq_square)
    also have "\<dots> = real (Suc (Suc k)) * cos t ^ Suc (Suc k)"
      unfolding s by (simp add: algebra_simps power2_eq_square)
    finally show ?thesis by simp
  qed
  ultimately show ?case unfolding eq by simp
qed

lemma cos_int_0: "cos_int k 0 = 0"
  by (induction k "0::real" rule: cos_int.induct) simp_all

lemma wallis_0: "wallis 0 = pi / 2"
  by (simp add: wallis_def)

lemma wallis_1: "wallis (Suc 0) = 1"
  by (simp add: wallis_def)

lemma wallis_SucSuc: "wallis (Suc (Suc k)) = real (Suc k) / real (Suc (Suc k)) * wallis k"
  by (simp add: wallis_def)

lemma cos_int_mono_arg:
  assumes "0 \<le> s" "s \<le> t" "t \<le> pi / 2"
  shows "cos_int k s \<le> cos_int k t"
proof (rule DERIV_nonneg_imp_nondecreasing[OF assms(2)])
  fix x assume x: "s \<le> x" "x \<le> t"
  then have "0 \<le> cos x"
    using assms by (intro cos_ge_zero) auto
  then have "0 \<le> cos x ^ k" by simp
  then show "\<exists>y. DERIV (cos_int k) x :> y \<and> 0 \<le> y"
    using DERIV_cos_int by blast
qed

lemma cos_int_antimono_index:
  assumes "0 \<le> t" "t \<le> pi / 2"
  shows "cos_int (Suc k) t \<le> cos_int k t"
proof -
  have "cos_int k 0 - cos_int (Suc k) 0 \<le> cos_int k t - cos_int (Suc k) t"
  proof (rule DERIV_nonneg_imp_nondecreasing[OF assms(1)])
    fix x assume x: "0 \<le> x" "x \<le> t"
    then have c: "0 \<le> cos x" "cos x \<le> 1"
      using assms by (auto intro!: cos_ge_zero)
    have "DERIV (\<lambda>x. cos_int k x - cos_int (Suc k) x) x :> cos x ^ k - cos x ^ Suc k"
      by (intro derivative_intros DERIV_cos_int)
    moreover have "0 \<le> cos x ^ k - cos x ^ Suc k"
    proof -
      have "cos x ^ Suc k = cos x * cos x ^ k" by simp
      also have "\<dots> \<le> 1 * cos x ^ k"
        using c by (intro mult_right_mono) auto
      finally show ?thesis by simp
    qed
    ultimately show "\<exists>y. DERIV (\<lambda>x. cos_int k x - cos_int (Suc k) x) x :> y \<and> 0 \<le> y"
      by blast
  qed
  then show ?thesis by (simp add: cos_int_0)
qed

lemma wallis_antimono: "wallis (Suc k) \<le> wallis k"
  unfolding wallis_def by (rule cos_int_antimono_index) auto

lemma wallis_pos: "0 < wallis k"
proof (induction k rule: induct_nat_012)
  case (ge2 n)
  then show ?case by (simp add: wallis_SucSuc del: of_nat_Suc)
qed (simp_all add: wallis_0 wallis_1)

lemma wallis_prod: "wallis k * wallis (Suc k) = pi / (2 * real (Suc k))"
proof (induction k)
  case 0
  then show ?case by (simp add: wallis_0 wallis_1)
next
  case (Suc k)
  have "wallis (Suc k) * wallis (Suc (Suc k))
      = real (Suc k) / real (Suc (Suc k)) * (wallis k * wallis (Suc k))"
    by (simp add: wallis_SucSuc del: of_nat_Suc)
  also have "\<dots> = pi / (2 * real (Suc (Suc k)))"
    unfolding Suc.IH by (simp del: of_nat_Suc)
  finally show ?case .
qed

lemma wallis_sq_le: "(wallis (Suc k))\<^sup>2 \<le> pi / (2 * real (Suc k))"
proof -
  have "(wallis (Suc k))\<^sup>2 = wallis (Suc k) * wallis (Suc k)"
    by (simp add: power2_eq_square)
  also have "\<dots> \<le> wallis k * wallis (Suc k)"
    using wallis_antimono[of k] wallis_pos[of "Suc k"] by (intro mult_right_mono) auto
  finally show ?thesis by (simp only: wallis_prod)
qed


subsection \<open>The Gaussian integral is bounded by half the root of \<open>\<pi>\<close>\<close>

lemma gauss_major_0: "gauss_major m 0 = 0"
  by (simp add: gauss_major_def cos_int_0)

lemma DERIV_gauss_major:
  "DERIV (gauss_major m) x :> 1 / (1 + x\<^sup>2 / real (Suc m)) ^ Suc m"
proof -
  define c where "c = sqrt (real (Suc m))"
  have c: "0 < c" "c\<^sup>2 = real (Suc m)"
    by (simp_all add: c_def del: of_nat_Suc)
  define u where "u = x / c"
  have u2: "u\<^sup>2 = x\<^sup>2 / real (Suc m)"
    by (simp add: u_def power_divide c)
  have pos: "0 < 1 + u\<^sup>2"
    by (rule add_pos_nonneg) simp_all
  have inner: "DERIV (\<lambda>x. arctan (x / c)) x :> inverse (1 + u\<^sup>2) * (1 / c)"
    unfolding u_def using c(1) by (auto intro!: derivative_eq_intros simp: field_simps)
  have "DERIV (\<lambda>x. cos_int (2 * m) (arctan (x / c))) x
          :> cos (arctan u) ^ (2 * m) * (inverse (1 + u\<^sup>2) * (1 / c))"
    using DERIV_chain2[OF DERIV_cos_int inner] by (simp add: u_def)
  then have "DERIV (\<lambda>x. c * cos_int (2 * m) (arctan (x / c))) x
          :> c * (cos (arctan u) ^ (2 * m) * (inverse (1 + u\<^sup>2) * (1 / c)))"
    by (rule DERIV_cmult)
  moreover have "c * (cos (arctan u) ^ (2 * m) * (inverse (1 + u\<^sup>2) * (1 / c)))
        = 1 / (1 + u\<^sup>2) ^ Suc m"
  proof -
    have "cos (arctan u) ^ (2 * m) = ((1 / sqrt (1 + u\<^sup>2))\<^sup>2) ^ m"
      by (simp add: cos_arctan power_mult)
    also have "(1 / sqrt (1 + u\<^sup>2))\<^sup>2 = 1 / (1 + u\<^sup>2)"
      using pos by (simp add: power_divide)
    finally have "cos (arctan u) ^ (2 * m) = 1 / (1 + u\<^sup>2) ^ m"
      by (simp add: power_divide)
    moreover have "c * (cos (arctan u) ^ (2 * m) * (inverse (1 + u\<^sup>2) * (1 / c)))
          = cos (arctan u) ^ (2 * m) * inverse (1 + u\<^sup>2)"
      using c(1) by simp
    ultimately show ?thesis
      by (simp add: divide_inverse)
  qed
  moreover have "gauss_major m = (\<lambda>x. c * cos_int (2 * m) (arctan (x / c)))"
    by (auto simp: gauss_major_def c_def fun_eq_iff)
  ultimately show ?thesis
    by (simp add: u2)
qed

lemma exp_minus_sq_le: "exp (- (x\<^sup>2)) \<le> 1 / (1 + x\<^sup>2 / real (Suc m)) ^ Suc m"
proof -
  have pos: "0 < 1 + x\<^sup>2 / real (Suc m)"
    by (rule add_pos_nonneg) simp_all
  have "(1 + x\<^sup>2 / real (Suc m)) ^ Suc m \<le> exp (x\<^sup>2 / real (Suc m)) ^ Suc m"
    using pos by (intro power_mono exp_ge_add_one_self) simp
  also have "\<dots> = exp (real (Suc m) * (x\<^sup>2 / real (Suc m)))"
    by (rule exp_of_nat_mult[symmetric])
  also have "\<dots> = exp (x\<^sup>2)"
    by (simp del: of_nat_Suc)
  finally have "(1 + x\<^sup>2 / real (Suc m)) ^ Suc m \<le> exp (x\<^sup>2)" .
  moreover have "0 < (1 + x\<^sup>2 / real (Suc m)) ^ Suc m"
    using pos by (rule zero_less_power)
  ultimately have "1 / exp (x\<^sup>2) \<le> 1 / (1 + x\<^sup>2 / real (Suc m)) ^ Suc m"
    by (intro divide_left_mono) (auto intro: mult_pos_pos)
  then show ?thesis by (simp add: exp_minus inverse_eq_divide)
qed

lemma erf_series_le_major:
  assumes "0 \<le> x"
  shows "erf_series x \<le> gauss_major m x"
proof -
  have "gauss_major m 0 - erf_series 0 \<le> gauss_major m x - erf_series x"
  proof (rule DERIV_nonneg_imp_nondecreasing[OF assms])
    fix y :: real
    have "DERIV (\<lambda>y. gauss_major m y - erf_series y) y
            :> 1 / (1 + y\<^sup>2 / real (Suc m)) ^ Suc m - exp (- (y\<^sup>2))"
      by (intro derivative_intros DERIV_gauss_major DERIV_erf_series)
    then show "\<exists>d. DERIV (\<lambda>y. gauss_major m y - erf_series y) y :> d \<and> 0 \<le> d"
      using exp_minus_sq_le[of y m] by (intro exI conjI) auto
  qed
  then show ?thesis by (simp add: gauss_major_0 erf_series_0)
qed

lemma gauss_major_le_wallis:
  assumes "0 \<le> x"
  shows "gauss_major m x \<le> sqrt (real (Suc m)) * wallis (2 * m)"
proof -
  have "0 \<le> arctan (x / sqrt (real (Suc m)))"
    using assms by (simp add: zero_le_arctan_iff del: of_nat_Suc)
  moreover have "arctan (x / sqrt (real (Suc m))) \<le> pi / 2"
    using arctan_ubound[of "x / sqrt (real (Suc m))"] by simp
  ultimately have "cos_int (2 * m) (arctan (x / sqrt (real (Suc m)))) \<le> cos_int (2 * m) (pi / 2)"
    by (intro cos_int_mono_arg) auto
  then show ?thesis
    unfolding gauss_major_def wallis_def by (intro mult_left_mono) auto
qed

lemma erf_series_nonneg: "0 \<le> x \<Longrightarrow> 0 \<le> erf_series x"
  using erf_series_strict_mono[of 0 x] by (cases "x = 0") (auto simp: erf_series_0)

lemma erf_series_sq_le_approx:
  assumes "0 \<le> x"
  shows "(erf_series x)\<^sup>2 \<le> pi / 4 + pi / 4 * inverse (real (Suc j))"
proof -
  define m where "m = Suc j"
  have le: "erf_series x \<le> sqrt (real (Suc m)) * wallis (2 * m)"
    using erf_series_le_major[OF assms, of m] gauss_major_le_wallis[OF assms, of m] by linarith
  have "(erf_series x)\<^sup>2 \<le> (sqrt (real (Suc m)) * wallis (2 * m))\<^sup>2"
    using le erf_series_nonneg[OF assms] by (intro power_mono) auto
  also have "\<dots> = real (Suc m) * (wallis (2 * m))\<^sup>2"
    by (simp add: power_mult_distrib del: of_nat_Suc)
  also have "\<dots> \<le> real (Suc m) * (pi / (2 * real (2 * m)))"
  proof -
    have "2 * m = Suc (2 * j + 1)" by (simp add: m_def)
    then have "(wallis (2 * m))\<^sup>2 \<le> pi / (2 * real (2 * m))"
      using wallis_sq_le[of "2 * j + 1"] by simp
    then show ?thesis by (intro mult_left_mono) auto
  qed
  also have "\<dots> = pi / 4 + pi / 4 * inverse (real (Suc j))"
    by (simp add: m_def field_simps)
  finally show ?thesis .
qed

lemma erf_series_sq_le:
  assumes "0 \<le> x"
  shows "(erf_series x)\<^sup>2 \<le> pi / 4"
proof (rule field_le_epsilon)
  fix e :: real assume e: "0 < e"
  then have "0 < 4 * e / pi" by simp
  then obtain n where n: "inverse (real (Suc n)) < 4 * e / pi"
    using reals_Archimedean by blast
  have "pi / 4 * inverse (real (Suc n)) < pi / 4 * (4 * e / pi)"
    using n by (intro mult_strict_left_mono) auto
  also have "\<dots> = e" by simp
  finally show "(erf_series x)\<^sup>2 \<le> pi / 4 + e"
    using erf_series_sq_le_approx[OF assms, of n] by linarith
qed

lemma erf_series_le: "erf_series x \<le> sqrt pi / 2"
proof (cases "0 \<le> x")
  case True
  have "erf_series x \<le> sqrt (pi / 4)"
    by (rule real_le_rsqrt) (rule erf_series_sq_le[OF True])
  also have "sqrt (pi / 4) = sqrt pi / 2"
    by (simp add: real_sqrt_divide)
  finally show ?thesis .
next
  case False
  then have "erf_series x < erf_series 0"
    by (intro erf_series_strict_mono) auto
  then have "erf_series x < 0" by (simp add: erf_series_0)
  moreover have "0 \<le> sqrt pi / 2" by simp
  ultimately show ?thesis by linarith
qed

lemma erf_series_less: "erf_series x < sqrt pi / 2"
  using erf_series_strict_mono[of x "x + 1"] erf_series_le[of "x + 1"] by simp

lemma erf_less_1: "erf x < 1"
proof -
  have "0 < sqrt pi" by simp
  then have "2 / sqrt pi * erf_series x < 2 / sqrt pi * (sqrt pi / 2)"
    using erf_series_less[of x] by (intro mult_strict_left_mono) auto
  then show ?thesis by (simp add: erf_def)
qed

lemma erf_minus: "erf (- x) = - erf x"
  by (simp add: erf_def erf_series_minus)

lemma erf_gt_m1: "- 1 < erf x"
  using erf_less_1[of "- x"] by (simp add: erf_minus)


subsection \<open>The normal distribution function\<close>

lemma erf_0: "erf 0 = 0"
  by (simp add: erf_def erf_series_0)

lemma erf_strict_mono: "x < y \<Longrightarrow> erf x < erf y"
  unfolding erf_def using erf_series_strict_mono[of x y]
  by (intro mult_strict_left_mono) auto

lemma erf_eq_0_iff: "erf x = 0 \<longleftrightarrow> x = 0"
proof
  assume e: "erf x = 0"
  show "x = 0"
  proof (rule ccontr)
    assume "x \<noteq> 0"
    then consider "x < 0" | "0 < x" by linarith
    then show False
    proof cases
      case 1
      from erf_strict_mono[OF 1] show False by (simp add: e erf_0)
    next
      case 2
      from erf_strict_mono[OF 2] show False by (simp add: e erf_0)
    qed
  qed
qed (simp add: erf_0)

lemma DERIV_erf: "DERIV erf x :> 2 / sqrt pi * exp (- (x\<^sup>2))"
proof -
  have "erf = (\<lambda>x. 2 / sqrt pi * erf_series x)"
    by (auto simp: erf_def fun_eq_iff)
  moreover have "DERIV (\<lambda>x. 2 / sqrt pi * erf_series x) x :> 2 / sqrt pi * exp (- (x\<^sup>2))"
    by (rule DERIV_cmult) (rule DERIV_erf_series)
  ultimately show ?thesis by simp
qed

lemma std_normal_cdf_bounds: "0 < std_normal_cdf z \<and> std_normal_cdf z < 1"
  using erf_less_1[of "z / sqrt 2"] erf_gt_m1[of "z / sqrt 2"]
  by (simp add: std_normal_cdf_def)

lemma std_normal_cdf_half_iff: "std_normal_cdf z = 1 / 2 \<longleftrightarrow> z = 0"
proof -
  have "std_normal_cdf z = 1 / 2 \<longleftrightarrow> erf (z / sqrt 2) = 0"
    by (simp add: std_normal_cdf_def)
  also have "\<dots> \<longleftrightarrow> z = 0"
    by (simp add: erf_eq_0_iff)
  finally show ?thesis .
qed

lemma std_normal_cdf_minus: "std_normal_cdf (- z) = 1 - std_normal_cdf z"
proof -
  have "erf (- z / sqrt 2) = - erf (z / sqrt 2)"
    using erf_minus[of "z / sqrt 2"] by simp
  then show ?thesis
    unfolding std_normal_cdf_def by (simp add: algebra_simps)
qed

lemma DERIV_std_normal_cdf: "DERIV std_normal_cdf z :> std_normal_density z"
proof -
  have eq: "std_normal_cdf = (\<lambda>z. 1 / 2 * (1 + erf (z / sqrt 2)))"
    by (auto simp: std_normal_cdf_def fun_eq_iff)
  have d1: "DERIV (\<lambda>z. z / sqrt 2) z :> 1 / sqrt 2"
    by (rule DERIV_cdivide[OF DERIV_ident])
  have d2: "DERIV (\<lambda>z. erf (z / sqrt 2)) z
          :> 2 / sqrt pi * exp (- ((z / sqrt 2)\<^sup>2)) * (1 / sqrt 2)"
    by (rule DERIV_chain2[OF DERIV_erf d1])
  have d3: "DERIV (\<lambda>z. 1 + erf (z / sqrt 2)) z
          :> 0 + 2 / sqrt pi * exp (- ((z / sqrt 2)\<^sup>2)) * (1 / sqrt 2)"
    by (rule DERIV_add[OF DERIV_const d2])
  have "DERIV (\<lambda>z. 1 / 2 * (1 + erf (z / sqrt 2))) z
          :> 1 / 2 * (2 / sqrt pi * exp (- ((z / sqrt 2)\<^sup>2)) * (1 / sqrt 2))"
    using DERIV_cmult[OF d3, of "1 / 2"] by simp
  moreover have "1 / 2 * (2 / sqrt pi * exp (- ((z / sqrt 2)\<^sup>2)) * (1 / sqrt 2))
      = std_normal_density z"
  proof -
    have "(z / sqrt 2)\<^sup>2 = z\<^sup>2 / 2"
      by (simp add: power_divide)
    then have "1 / 2 * (2 / sqrt pi * exp (- ((z / sqrt 2)\<^sup>2)) * (1 / sqrt 2))
        = exp (- (z\<^sup>2) / 2) / (sqrt pi * sqrt 2)"
      by simp
    also have "sqrt pi * sqrt 2 = sqrt (2 * pi)"
      by (simp add: real_sqrt_mult)
    finally show ?thesis
      by (simp add: std_normal_density_def)
  qed
  ultimately show ?thesis unfolding eq by simp
qed

lemma std_normal_cdf_strict_mono: "x < y \<Longrightarrow> std_normal_cdf x < std_normal_cdf y"
  unfolding std_normal_cdf_def
  using erf_strict_mono[of "x / sqrt 2" "y / sqrt 2"] by (simp add: divide_strict_right_mono)


subsection \<open>The limits of the distribution function\<close>

lemma wallis_sq_ge: "pi / (2 * real (Suc (Suc k))) \<le> (wallis (Suc k))\<^sup>2"
proof -
  have "pi / (2 * real (Suc (Suc k))) = wallis (Suc k) * wallis (Suc (Suc k))"
    by (simp only: wallis_prod)
  also have "\<dots> \<le> wallis (Suc k) * wallis (Suc k)"
    using wallis_antimono[of "Suc k"] wallis_pos[of "Suc k"] by (intro mult_left_mono) auto
  finally show ?thesis by (simp add: power2_eq_square)
qed

lemma erf_series_ge_wallis:
  "sqrt (real m) * wallis (2 * m + 1) \<le> erf_series (sqrt (real m))"
proof -
  define c where "c = sqrt (real m)"
  have c0: "0 \<le> c" and c2: "c\<^sup>2 = real m" by (simp_all add: c_def)
  define g where "g t = erf_series (c * sin t) - c * cos_int (2 * m + 1) t" for t
  have "g 0 \<le> g (pi / 2)"
  proof (rule DERIV_nonneg_imp_nondecreasing[of 0 "pi / 2" g])
    show "0 \<le> pi / 2" by simp
  next
    fix t :: real assume t: "0 \<le> t" "t \<le> pi / 2"
    then have ct: "0 \<le> cos t" by (intro cos_ge_zero) auto
    have d1: "DERIV (\<lambda>t. c * sin t) t :> c * cos t"
      by (auto intro!: derivative_eq_intros)
    have d2: "DERIV (\<lambda>t. erf_series (c * sin t)) t :> exp (- ((c * sin t)\<^sup>2)) * (c * cos t)"
      by (rule DERIV_chain2[OF DERIV_erf_series d1])
    have d3: "DERIV (\<lambda>t. c * cos_int (2 * m + 1) t) t :> c * cos t ^ (2 * m + 1)"
      by (rule DERIV_cmult[OF DERIV_cos_int])
    have d: "DERIV g t :> exp (- ((c * sin t)\<^sup>2)) * (c * cos t) - c * cos t ^ (2 * m + 1)"
      unfolding g_def by (rule DERIV_diff[OF d2 d3])
    have "(cos t)\<^sup>2 = 1 - (sin t)\<^sup>2" by (simp add: cos_squared_eq)
    also have "\<dots> \<le> exp (- ((sin t)\<^sup>2))"
      using exp_ge_add_one_self[of "- ((sin t)\<^sup>2)"] by simp
    finally have "((cos t)\<^sup>2) ^ m \<le> exp (- ((sin t)\<^sup>2)) ^ m"
      by (intro power_mono) simp_all
    also have "\<dots> = exp (real m * (- ((sin t)\<^sup>2)))"
      by (rule exp_of_nat_mult[symmetric])
    also have "\<dots> = exp (- ((c * sin t)\<^sup>2))"
      by (simp add: power_mult_distrib c2)
    finally have le: "cos t ^ (2 * m) \<le> exp (- ((c * sin t)\<^sup>2))"
      by (simp add: power_mult)
    have "c * cos t ^ (2 * m + 1) = (c * cos t) * cos t ^ (2 * m)"
      by simp
    also have "\<dots> \<le> (c * cos t) * exp (- ((c * sin t)\<^sup>2))"
      using le c0 ct by (intro mult_left_mono) auto
    finally have "0 \<le> exp (- ((c * sin t)\<^sup>2)) * (c * cos t) - c * cos t ^ (2 * m + 1)"
      by (simp add: mult.commute)
    with d show "\<exists>y. DERIV g t :> y \<and> 0 \<le> y" by blast
  qed
  then show ?thesis
    by (simp add: g_def cos_int_0 erf_series_0 wallis_def c_def)
qed

lemma erf_sqrt_ge: "1 - 1 / real (Suc m) \<le> erf (sqrt (real m))"
proof -
  define a where "a = sqrt pi / 2"
  define r where "r = real m / real (Suc m)"
  have a0: "0 < a" and a2: "a\<^sup>2 = pi / 4"
    by (simp_all add: a_def power_divide)
  have r0: "0 \<le> r" and r1: "r \<le> 1"
    by (simp_all add: r_def)
  have F0: "0 \<le> erf_series (sqrt (real m))"
    by (rule erf_series_nonneg) simp
  have "(a * r)\<^sup>2 = a\<^sup>2 * r\<^sup>2"
    by (rule power_mult_distrib)
  also have "\<dots> = pi / 4 * (r * r)"
    unfolding a2 by (simp add: power2_eq_square)
  also have "\<dots> \<le> pi / 4 * (r * 1)"
    using r0 r1 by (intro mult_left_mono) auto
  also have "\<dots> = real m * (pi / (2 * real (Suc (Suc (2 * m)))))"
    by (simp add: r_def field_simps)
  also have "\<dots> \<le> real m * (wallis (Suc (2 * m)))\<^sup>2"
    using wallis_sq_ge[of "2 * m"] by (intro mult_left_mono) auto
  also have "\<dots> = (sqrt (real m) * wallis (2 * m + 1))\<^sup>2"
    by (simp add: power_mult_distrib)
  also have "\<dots> \<le> (erf_series (sqrt (real m)))\<^sup>2"
    using erf_series_ge_wallis[of m] wallis_pos[of "2 * m + 1"]
    by (intro power_mono) auto
  finally have "a * r \<le> erf_series (sqrt (real m))"
    using F0 by (rule power2_le_imp_le)
  then have "2 / sqrt pi * (a * r) \<le> 2 / sqrt pi * erf_series (sqrt (real m))"
    by (intro mult_left_mono) auto
  moreover have "2 / sqrt pi * (a * r) = r"
    by (simp add: a_def)
  moreover have "r = 1 - 1 / real (Suc m)"
    by (simp add: r_def field_simps)
  ultimately show ?thesis by (simp add: erf_def)
qed

lemma erf_mono: "x \<le> y \<Longrightarrow> erf x \<le> erf y"
  using erf_strict_mono[of x y] by (cases "x = y") auto

lemma erf_tendsto_1: "(erf \<longlongrightarrow> 1) at_top"
proof (rule tendstoI)
  fix e :: real assume e: "0 < e"
  then obtain m where m: "inverse (real (Suc m)) < e"
    using reals_Archimedean by blast
  have "dist (erf x) 1 < e" if "sqrt (real m) \<le> x" for x
  proof -
    have "1 - 1 / real (Suc m) \<le> erf x"
      using erf_sqrt_ge[of m] erf_mono[OF that] by linarith
    moreover have "erf x < 1" by (rule erf_less_1)
    ultimately show ?thesis
      using m by (simp add: dist_real_def inverse_eq_divide)
  qed
  then show "eventually (\<lambda>x. dist (erf x) 1 < e) at_top"
    unfolding eventually_at_top_linorder by blast
qed

lemma std_normal_cdf_mono: "x \<le> y \<Longrightarrow> std_normal_cdf x \<le> std_normal_cdf y"
  using std_normal_cdf_strict_mono[of x y] by (cases "x = y") auto

lemma std_normal_cdf_tendsto_1: "(std_normal_cdf \<longlongrightarrow> 1) at_top"
proof (rule tendstoI)
  fix e :: real assume e: "0 < e"
  then obtain m where m: "inverse (real (Suc m)) < e"
    using reals_Archimedean by blast
  have "dist (std_normal_cdf z) 1 < e" if "sqrt 2 * sqrt (real m) \<le> z" for z
  proof -
    have "sqrt (real m) \<le> z / sqrt 2"
      using that by (simp add: pos_le_divide_eq mult.commute)
    then have "1 - 1 / real (Suc m) \<le> erf (z / sqrt 2)"
      using erf_sqrt_ge[of m] erf_mono[of "sqrt (real m)" "z / sqrt 2"] by linarith
    then have "1 - 1 / real (Suc m) / 2 \<le> std_normal_cdf z"
      by (simp add: std_normal_cdf_def field_simps)
    moreover have "std_normal_cdf z < 1"
      using std_normal_cdf_bounds[of z] by simp
    moreover have "1 / real (Suc m) / 2 < e"
      using m e by (simp add: inverse_eq_divide field_simps)
    ultimately show ?thesis
      by (simp add: dist_real_def)
  qed
  then show "eventually (\<lambda>z. dist (std_normal_cdf z) 1 < e) at_top"
    unfolding eventually_at_top_linorder by blast
qed

lemma std_normal_cdf_tendsto_0: "(std_normal_cdf \<longlongrightarrow> 0) at_bot"
proof (rule tendstoI)
  fix e :: real assume e: "0 < e"
  from tendstoD[OF std_normal_cdf_tendsto_1 e] obtain N where
    N: "\<forall>z\<ge>N. dist (std_normal_cdf z) 1 < e"
    unfolding eventually_at_top_linorder by blast
  have "dist (std_normal_cdf z) 0 < e" if "z \<le> - N" for z
  proof -
    from that have "N \<le> - z" by simp
    with N have "dist (std_normal_cdf (- z)) 1 < e" by blast
    then show ?thesis
      using std_normal_cdf_bounds[of z] by (simp add: std_normal_cdf_minus dist_real_def)
  qed
  then show "eventually (\<lambda>z. dist (std_normal_cdf z) 0 < e) at_bot"
    unfolding eventually_at_bot_linorder by blast
qed

text \<open>So \<^const>\<open>std_normal_cdf\<close> is the distribution function of the standard normal
  density: it increases from \<open>0\<close> at \<open>-\<infinity>\<close> to \<open>1\<close> at \<open>+\<infinity>\<close> and its derivative is
  \<^const>\<open>std_normal_density\<close>.\<close>

lemma std_normal_cdf_is_distribution:
  "(\<forall>z. DERIV std_normal_cdf z :> std_normal_density z)
   \<and> (std_normal_cdf \<longlongrightarrow> 0) at_bot \<and> (std_normal_cdf \<longlongrightarrow> 1) at_top"
  using DERIV_std_normal_cdf std_normal_cdf_tendsto_0 std_normal_cdf_tendsto_1 by blast


section \<open>Squad aggregator and fusion model: basic facts\<close>

lemma rows_select [simp]: "rows (select P df) = filter P (rows df)"
  by (cases df) simp_all

lemma has_shirt_number_select [simp]: "has_shirt_number (select P df) = has_shirt_number df"
  by (cases df) simp_all

lemma get_tactical_metrics_NoColumns:
  "get_tactical_metrics NoColumns cntry params = Inl (KeyError ''country'')"
  by (simp add: get_tactical_metrics_def)

lemma get_tactical_metrics_raises_iff:
  "(\<exists>e. get_tactical_metrics df cntry params = Inl e) \<longleftrightarrow> df = NoColumns"
  by (cases df) (simp_all add: get_tactical_metrics_def Let_def)

lemma get_tactical_metrics_None_iff:
  "get_tactical_metrics df cntry params = Inr None \<longleftrightarrow> df \<noteq> NoColumns \<and> team_rows df cntry = []"
  by (cases df) (simp_all add: get_tactical_metrics_def Let_def empty_def team_rows_def)

lemma get_tactical_metrics_Some_iff:
  "(\<exists>m. get_tactical_metrics df cntry params = Inr (Some m)) \<longleftrightarrow> team_rows df cntry \<noteq> []"
  by (cases df) (simp_all add: get_tactical_metrics_def Let_def empty_def team_rows_def)

lemma team_rows_empty_iff: "team_rows df cntry = [] \<longleftrightarrow> (\<forall>r\<in>set (rows df). country r \<noteq> cntry)"
  by (auto simp: team_rows_def filter_empty_conv)

lemma simulate_match_NoColumns:
  "simulate_match hm aw NoColumns params = Inl (KeyError ''country'')"
  by (simp add: simulate_match_def get_tactical_metrics_NoColumns)

lemma simulate_match_missing:
  assumes "df \<noteq> NoColumns" and "team_rows df hm = [] \<or> team_rows df aw = []"
  shows "simulate_match hm aw df params
           = Inr (Error (''Missing data in CSV for '' @ hm @ '' or '' @ aw))"
proof -
  from assms(1) obtain h_opt a_opt where
    g: "get_tactical_metrics df hm params = Inr h_opt" "get_tactical_metrics df aw params = Inr a_opt"
    using get_tactical_metrics_raises_iff[of df hm params]
      get_tactical_metrics_raises_iff[of df aw params]
    by (metis sum.exhaust)
  from assms g have "h_opt = None \<or> a_opt = None"
    using get_tactical_metrics_None_iff[of df hm params] get_tactical_metrics_None_iff[of df aw params]
    by auto
  then show ?thesis
    by (auto simp: simulate_match_def g split: option.splits)
qed

text \<open>The mismatch adjustment and the fused margin, as \<open>simulate_match\<close> computes them from
  two profiles.\<close>

lemma simulate_match_prediction:
  assumes h: "get_tactical_metrics df hm params = Inr (Some h)"
      and a: "get_tactical_metrics df aw params = Inr (Some a)"
      and sd: "STD_DEV params \<noteq> 0"
  shows "\<exists>p. simulate_match hm aw df params = Inr (Prediction p)
           \<and> home p = hm \<and> away p = aw
           \<and> pack_diff (debug p)
               = (0.7 * pack_xv h + 0.3 * pack_bench h) - (0.7 * pack_xv a + 0.3 * pack_bench a)
           \<and> tactical (debug p)
               = (total_score h - total_score a) * TACTICAL_SCALING_FACTOR params
                 + (if pack_diff (debug p) > MISMATCH_THRESHOLD params then MISMATCH_BONUS params
                    else if pack_diff (debug p) < - MISMATCH_THRESHOLD params then - MISMATCH_BONUS params
                    else 0)
           \<and> elo (debug p) = (dict_get WR_ELO hm 75 - dict_get WR_ELO aw 75) * ELO_SCALING params
           \<and> margin p = tactical (debug p) * WEIGHT_MODEL_TACTICAL params
                          + elo (debug p) * WEIGHT_MODEL_ELO params + HOME_ADVANTAGE params
           \<and> prob p = 0.5 * (1 + erf (margin p / STD_DEV params / sqrt 2))"
  using sd by (simp add: simulate_match_def h a Let_def py_truediv_def)


section \<open>The example tables\<close>

lemma DEFAULT_CONFIG_fields:
  "HOME_ADVANTAGE DEFAULT_CONFIG = 2" "STD_DEV DEFAULT_CONFIG = 13.5"
  "WEIGHT_MODEL_TACTICAL DEFAULT_CONFIG = 0.65" "WEIGHT_MODEL_ELO DEFAULT_CONFIG = 0.35"
  "WEIGHT_PACK DEFAULT_CONFIG = 0.4" "WEIGHT_CONTROL DEFAULT_CONFIG = 0.35"
  "WEIGHT_STRIKE DEFAULT_CONFIG = 0.25" "WEIGHT_STARTERS DEFAULT_CONFIG = 0.8"
  "WEIGHT_BENCH DEFAULT_CONFIG = 0.2" "TACTICAL_SCALING_FACTOR DEFAULT_CONFIG = 0.85"
  "ELO_SCALING DEFAULT_CONFIG = 0.7" "MISMATCH_THRESHOLD DEFAULT_CONFIG = 4"
  "MISMATCH_BONUS DEFAULT_CONFIG = 5"
  by (simp_all add: DEFAULT_CONFIG_def)

lemma pack_table_metrics_gen:
  "get_tactical_metrics (pack_table h a) ''France'' params
     = Inr (Some \<lparr>total_score =
               (h * WEIGHT_PACK params + 70 * WEIGHT_CONTROL params + 70 * WEIGHT_STRIKE params)
                 * WEIGHT_STARTERS params
               + (h * WEIGHT_PACK params + 70 * WEIGHT_CONTROL params + 70 * WEIGHT_STRIKE params)
                 * WEIGHT_BENCH params,
             pack_xv = h, pack_bench = h\<rparr>)"
  "get_tactical_metrics (pack_table h a) ''Ireland'' params
     = Inr (Some \<lparr>total_score =
               (a * WEIGHT_PACK params + 70 * WEIGHT_CONTROL params + 70 * WEIGHT_STRIKE params)
                 * WEIGHT_STARTERS params
               + (a * WEIGHT_PACK params + 70 * WEIGHT_CONTROL params + 70 * WEIGHT_STRIKE params)
                 * WEIGHT_BENCH params,
             pack_xv = a, pack_bench = a\<rparr>)"
  by (simp_all add: get_tactical_metrics_def pack_table_def empty_def Let_def
      get_unit_average_def skill_mean_def mean_def)

lemma pack_table_metrics:
  "get_tactical_metrics (pack_table h a) ''France'' DEFAULT_CONFIG
     = Inr (Some \<lparr>total_score = 0.4 * h + 42, pack_xv = h, pack_bench = h\<rparr>)"
  "get_tactical_metrics (pack_table h a) ''Ireland'' DEFAULT_CONFIG
     = Inr (Some \<lparr>total_score = 0.4 * a + 42, pack_xv = a, pack_bench = a\<rparr>)"
  by (simp_all add: pack_table_metrics_gen DEFAULT_CONFIG_fields field_simps)

lemma elo_values:
  "dict_get WR_ELO ''France'' 75 = 87.24" "dict_get WR_ELO ''Ireland'' 75 = 87.97"
  by (simp_all add: dict_get_def WR_ELO_def)

section \<open>Claims on the fusion model\<close>

text \<open>
  Claim C3, as stated: whenever the absolute value of the blended pack difference
  \<open>pack_diff = (0.7 * pack_xv + 0.3 * pack_bench)\<close> home minus away exceeds
  \<open>MISMATCH_THRESHOLD\<close>, exactly \<open>MISMATCH_BONUS\<close> is added to the tactical margin for a
  positive difference and subtracted for a negative one. The code compares the difference
  itself with the threshold and with its negation, so the statement fails for a negative
  threshold: with threshold \<open>-2\<close> and a pack difference of \<open>-1\<close> (absolute value above the
  threshold, difference negative) the bonus \<open>5\<close> is added to the scaled score difference
  \<open>-0.34\<close>, not subtracted.
\<close>

theorem mismatch_bonus_sign_counterexample:
  "MISMATCH_THRESHOLD (DEFAULT_CONFIG\<lparr>MISMATCH_THRESHOLD := - 2\<rparr>) = - 2
   \<and> MISMATCH_BONUS (DEFAULT_CONFIG\<lparr>MISMATCH_THRESHOLD := - 2\<rparr>) = 5
   \<and> result_pack_diff (simulate_match ''France'' ''Ireland'' (pack_table 70 71)
         (DEFAULT_CONFIG\<lparr>MISMATCH_THRESHOLD := - 2\<rparr>)) = Some (- 1)
   \<and> result_tactical (simulate_match ''France'' ''Ireland'' (pack_table 70 71)
         (DEFAULT_CONFIG\<lparr>MISMATCH_THRESHOLD := - 2\<rparr>)) = Some (- 0.34 + 5)"
proof -
  let ?c = "DEFAULT_CONFIG\<lparr>MISMATCH_THRESHOLD := - 2\<rparr>"
  have m: "get_tactical_metrics (pack_table 70 71) ''France'' ?c
            = Inr (Some \<lparr>total_score = 70, pack_xv = 70, pack_bench = 70\<rparr>)"
          "get_tactical_metrics (pack_table 70 71) ''Ireland'' ?c
            = Inr (Some \<lparr>total_score = 70.4, pack_xv = 71, pack_bench = 71\<rparr>)"
    by (simp_all add: pack_table_metrics_gen DEFAULT_CONFIG_fields)
  show ?thesis
    by (simp add: result_pack_diff_def result_tactical_def simulate_match_def m elo_values
        Let_def py_truediv_def DEFAULT_CONFIG_fields)
qed

text \<open>
  Claim C3, amended. For a non-negative \<open>MISMATCH_THRESHOLD\<close> the mismatch bonus is a step
  function of the blended pack difference: when its absolute value exceeds the threshold
  the tactical margin gets exactly \<open>MISMATCH_BONUS\<close> added (positive difference) or
  subtracted (negative difference), whatever the size of the excess, and nothing when the
  absolute value is at most the threshold.
\<close>

theorem mismatch_bonus_step_function:
  assumes thr: "0 \<le> MISMATCH_THRESHOLD params"
      and sd: "STD_DEV params \<noteq> 0"
      and h: "get_tactical_metrics df hm params = Inr (Some h)"
      and a: "get_tactical_metrics df aw params = Inr (Some a)"
  shows "\<exists>p. simulate_match hm aw df params = Inr (Prediction p)
           \<and> pack_diff (debug p)
               = (0.7 * pack_xv h + 0.3 * pack_bench h) - (0.7 * pack_xv a + 0.3 * pack_bench a)
           \<and> tactical (debug p)
               = (total_score h - total_score a) * TACTICAL_SCALING_FACTOR params
                 + (if \<bar>pack_diff (debug p)\<bar> > MISMATCH_THRESHOLD params
                    then (if pack_diff (debug p) > 0 then MISMATCH_BONUS params
                          else - MISMATCH_BONUS params)
                    else 0)"
proof -
  from simulate_match_prediction[OF h a sd] obtain p where
    p: "simulate_match hm aw df params = Inr (Prediction p)"
       "pack_diff (debug p)
               = (0.7 * pack_xv h + 0.3 * pack_bench h) - (0.7 * pack_xv a + 0.3 * pack_bench a)"
       "tactical (debug p)
               = (total_score h - total_score a) * TACTICAL_SCALING_FACTOR params
                 + (if pack_diff (debug p) > MISMATCH_THRESHOLD params then MISMATCH_BONUS params
                    else if pack_diff (debug p) < - MISMATCH_THRESHOLD params then - MISMATCH_BONUS params
                    else 0)"
    by blast
  have "(if pack_diff (debug p) > MISMATCH_THRESHOLD params then MISMATCH_BONUS params
         else if pack_diff (debug p) < - MISMATCH_THRESHOLD params then - MISMATCH_BONUS params
         else 0)
      = (if \<bar>pack_diff (debug p)\<bar> > MISMATCH_THRESHOLD params
         then (if pack_diff (debug p) > 0 then MISMATCH_BONUS params else - MISMATCH_BONUS params)
         else 0)"
    using thr by auto
  with p show ?thesis by auto
qed

text \<open>Under the default threshold \<open>4\<close> and bonus \<open>5\<close>: a pack difference of \<open>4.1\<close> and one of
  \<open>40\<close> add the same \<open>5\<close> points, \<open>3.9\<close> adds nothing, and \<open>-40\<close> subtracts \<open>5\<close>.\<close>

theorem mismatch_bonus_step_function_witness:
  "0 \<le> MISMATCH_THRESHOLD DEFAULT_CONFIG \<and> STD_DEV DEFAULT_CONFIG \<noteq> 0
   \<and> (\<exists>p. simulate_match ''France'' ''Ireland'' (pack_table 74.1 70) DEFAULT_CONFIG = Inr (Prediction p)
          \<and> pack_diff (debug p) = 4.1 \<and> tactical (debug p) = 0.34 * 4.1 + 5)
   \<and> (\<exists>p. simulate_match ''France'' ''Ireland'' (pack_table 90 50) DEFAULT_CONFIG = Inr (Prediction p)
          \<and> pack_diff (debug p) = 40 \<and> tactical (debug p) = 0.34 * 40 + 5)
   \<and> (\<exists>p. simulate_match ''France'' ''Ireland'' (pack_table 73.9 70) DEFAULT_CONFIG = Inr (Prediction p)
          \<and> pack_diff (debug p) = 3.9 \<and> tactical (debug p) = 0.34 * 3.9)
   \<and> (\<exists>p. simulate_match ''France'' ''Ireland'' (pack_table 50 90) DEFAULT_CONFIG = Inr (Prediction p)
          \<and> pack_diff (debug p) = - 40 \<and> tactical (debug p) = 0.34 * (- 40) - 5)"
proof -
  have thr: "0 \<le> MISMATCH_THRESHOLD DEFAULT_CONFIG" and sd: "STD_DEV DEFAULT_CONFIG \<noteq> 0"
    by (simp_all add: DEFAULT_CONFIG_fields)
  note c = DEFAULT_CONFIG_fields
  show ?thesis
    using thr sd
      mismatch_bonus_step_function[OF thr sd pack_table_metrics(1)[of "74.1" 70]
        pack_table_metrics(2)[of "74.1" 70]]
      mismatch_bonus_step_function[OF thr sd pack_table_metrics(1)[of 90 50]
        pack_table_metrics(2)[of 90 50]]
      mismatch_bonus_step_function[OF thr sd pack_table_metrics(1)[of "73.9" 70]
        pack_table_metrics(2)[of "73.9" 70]]
      mismatch_bonus_step_function[OF thr sd pack_table_metrics(1)[of 50 90]
        pack_table_metrics(2)[of 50 90]]
    by (auto simp: c)
qed





text \<open>
  Claim C6, as stated: when a team has no rows, the error result identifies which team or
  teams lacked data. It does not: the message names both teams joined by "or" in every
  case. A table with rows for Ireland only and a table with rows for France only give the
  same result for France against Ireland, although a different team lacks data.
\<close>

theorem error_names_lacking_team_counterexample:
  "simulate_match ''France'' ''Ireland''
       (Frame True
         [\<lparr>country = ''Ireland'', name = Some ''Andrew Porter'', position_group = ''Forwards'',
            skill = 80, starting = 1, shirt_number = 1\<rparr>]) DEFAULT_CONFIG
     = Inr (Error ''Missing data in CSV for France or Ireland'')
   \<and> simulate_match ''France'' ''Ireland''
       (Frame True
         [\<lparr>country = ''France'', name = Some ''Cyril Baille'', position_group = ''Forwards'',
            skill = 80, starting = 1, shirt_number = 1\<rparr>]) DEFAULT_CONFIG
     = Inr (Error ''Missing data in CSV for France or Ireland'')"
  by (simp add: simulate_match_def get_tactical_metrics_def empty_def Let_def)

text \<open>
  Claim C6, amended. For every table that has its columns and every pair of teams, if
  either team has no row in the table, \<open>simulate_match\<close> returns (it does not raise) the
  error result whose message names both teams, \<open>Missing data in CSV for <home> or <away>\<close>,
  without telling which of them lacked data. The frame without columns, which has no row
  of any team, is left out of the statement.
\<close>

theorem missing_team_error_result:
  assumes "df \<noteq> NoColumns"
      and "(\<forall>r\<in>set (rows df). country r \<noteq> hm) \<or> (\<forall>r\<in>set (rows df). country r \<noteq> aw)"
  shows "simulate_match hm aw df params
           = Inr (Error (''Missing data in CSV for '' @ hm @ '' or '' @ aw))"
proof -
  from assms(2) have "team_rows df hm = [] \<or> team_rows df aw = []"
    by (simp add: team_rows_empty_iff)
  with assms(1) show ?thesis by (rule simulate_match_missing)
qed

text \<open>The hypotheses hold for a table with rows of France and Ireland and none of Wales.\<close>

theorem missing_team_error_result_witness:
  "pack_table 80 70 \<noteq> NoColumns
   \<and> team_rows (pack_table 80 70) ''France'' \<noteq> []
   \<and> team_rows (pack_table 80 70) ''Wales'' = []
   \<and> simulate_match ''France'' ''Wales'' (pack_table 80 70) DEFAULT_CONFIG
       = Inr (Error ''Missing data in CSV for France or Wales'')"
proof -
  have c: "pack_table 80 70 \<noteq> NoColumns"
    by (simp add: pack_table_def)
  have f: "team_rows (pack_table 80 70) ''France'' \<noteq> []"
    by (simp add: team_rows_def pack_table_def)
  have t: "team_rows (pack_table 80 70) ''Wales'' = []"
    by (simp add: team_rows_def pack_table_def)
  then have "(\<forall>r\<in>set (rows (pack_table 80 70)). country r \<noteq> ''France'')
      \<or> (\<forall>r\<in>set (rows (pack_table 80 70)). country r \<noteq> ''Wales'')"
    by (simp add: team_rows_empty_iff)
  from missing_team_error_result[OF c this, of DEFAULT_CONFIG] c f t show ?thesis by simp
qed


section \<open>Claims on missing data and on squads of equal skill\<close>

lemma get_unit_average_empty: "empty sub \<Longrightarrow> get_unit_average sub u = 70"
  by (simp add: get_unit_average_def)

text \<open>For a table that has its columns, \<open>simulate_match\<close> gives the missing-data error
  result if and only if at least one of the two teams has no row; on the frame without
  columns it raises.\<close>

lemma is_error_result_simulate_match:
  "is_error_result (simulate_match hm aw df params)
     \<longleftrightarrow> df \<noteq> NoColumns \<and> (team_rows df hm = [] \<or> team_rows df aw = [])"
proof (cases "df = NoColumns")
  case True
  then show ?thesis
    by (simp add: simulate_match_NoColumns is_error_result_def)
next
  case col: False
  show ?thesis
  proof (cases "team_rows df hm = [] \<or> team_rows df aw = []")
    case True
    from simulate_match_missing[OF col this] True col show ?thesis
      by (simp add: is_error_result_def)
  next
    case False
    then obtain h a where "get_tactical_metrics df hm params = Inr (Some h)"
        "get_tactical_metrics df aw params = Inr (Some a)"
      using get_tactical_metrics_Some_iff[of df hm params] get_tactical_metrics_Some_iff[of df aw params]
      by auto
    then have "\<not> is_error_result (simulate_match hm aw df params)"
      by (simp add: is_error_result_def simulate_match_def Let_def py_truediv_def)
    with False show ?thesis by simp
  qed
qed

text \<open>A team with a row, whatever it lacks (starters, bench, forwards or backs), has a
  profile, and in it every empty unit subset counts the default average \<open>70\<close>: the pack of
  the starters or of the bench when that subset has no forward, the control and strike
  units when it has no back.\<close>

lemma empty_units_count_default:
  assumes m: "get_tactical_metrics df cntry params = Inr (Some m)"
  shows "\<exists>xv_control xv_strike bn_control bn_strike.
           total_score m
             = (pack_xv m * WEIGHT_PACK params + xv_control * WEIGHT_CONTROL params
                + xv_strike * WEIGHT_STRIKE params) * WEIGHT_STARTERS params
               + (pack_bench m * WEIGHT_PACK params + bn_control * WEIGHT_CONTROL params
                  + bn_strike * WEIGHT_STRIKE params) * WEIGHT_BENCH params
           \<and> (unit_rows df cntry 1 ''Forwards'' = [] \<longrightarrow> pack_xv m = 70)
           \<and> (unit_rows df cntry 1 ''Backs'' = [] \<longrightarrow> xv_control = 70 \<and> xv_strike = 70)
           \<and> (unit_rows df cntry 0 ''Forwards'' = [] \<longrightarrow> pack_bench m = 70)
           \<and> (unit_rows df cntry 0 ''Backs'' = [] \<longrightarrow> bn_control = 70 \<and> bn_strike = 70)"
proof -
  define sub where "sub s pg = select (\<lambda>r. position_group r = pg)
      (select (\<lambda>r. starting r = s) (select (\<lambda>r. country r = cntry) df))" for s pg
  have rows_sub: "rows (sub s pg) = unit_rows df cntry s pg" for s pg
    by (simp add: sub_def unit_rows_def team_rows_def)
  have d: "get_unit_average (sub s pg) u = 70" if "unit_rows df cntry s pg = []" for s pg u
    by (rule get_unit_average_empty) (simp add: empty_def rows_sub that)
  from m have col: "df \<noteq> NoColumns" and ne: "team_rows df cntry \<noteq> []"
    using get_tactical_metrics_NoColumns[of cntry params]
      get_tactical_metrics_Some_iff[of df cntry params] by auto
  from ne have sq: "\<not> empty (select (\<lambda>r. country r = cntry) df)"
    by (simp add: empty_def team_rows_def)
  from col obtain s rs where df: "df = Frame s rs"
    by (cases df) auto
  have "m = \<lparr>total_score =
              (get_unit_average (sub 1 ''Forwards'') ''Pack'' * WEIGHT_PACK params
               + get_unit_average (sub 1 ''Backs'') ''Control'' * WEIGHT_CONTROL params
               + get_unit_average (sub 1 ''Backs'') ''Strike'' * WEIGHT_STRIKE params)
                * WEIGHT_STARTERS params
              + (get_unit_average (sub 0 ''Forwards'') ''Pack'' * WEIGHT_PACK params
               + get_unit_average (sub 0 ''Backs'') ''Control'' * WEIGHT_CONTROL params
               + get_unit_average (sub 0 ''Backs'') ''Strike'' * WEIGHT_STRIKE params)
                * WEIGHT_BENCH params,
           pack_xv = get_unit_average (sub 1 ''Forwards'') ''Pack'',
           pack_bench = get_unit_average (sub 0 ''Forwards'') ''Pack''\<rparr>"
    using m sq unfolding get_tactical_metrics_def Let_def sub_def df
    by simp
  then have ts: "total_score m
             = (pack_xv m * WEIGHT_PACK params
                + get_unit_average (sub 1 ''Backs'') ''Control'' * WEIGHT_CONTROL params
                + get_unit_average (sub 1 ''Backs'') ''Strike'' * WEIGHT_STRIKE params)
                 * WEIGHT_STARTERS params
               + (pack_bench m * WEIGHT_PACK params
                  + get_unit_average (sub 0 ''Backs'') ''Control'' * WEIGHT_CONTROL params
                  + get_unit_average (sub 0 ''Backs'') ''Strike'' * WEIGHT_STRIKE params)
                 * WEIGHT_BENCH params"
    and px: "pack_xv m = get_unit_average (sub 1 ''Forwards'') ''Pack''"
    and pb: "pack_bench m = get_unit_average (sub 0 ''Forwards'') ''Pack''"
    by simp_all
  show ?thesis
    apply (rule exI[of _ "get_unit_average (sub 1 ''Backs'') ''Control''"])
    apply (rule exI[of _ "get_unit_average (sub 1 ''Backs'') ''Strike''"])
    apply (rule exI[of _ "get_unit_average (sub 0 ''Backs'') ''Control''"])
    apply (rule exI[of _ "get_unit_average (sub 0 ''Backs'') ''Strike''"])
    apply (intro conjI impI)
            apply (rule ts)
           apply (simp_all add: px pb d)
    done
qed

lemma sparse_team_is_predicted:
  assumes "team_rows df hm \<noteq> []" "team_rows df aw \<noteq> []" "STD_DEV params \<noteq> 0"
  shows "\<exists>p. simulate_match hm aw df params = Inr (Prediction p)"
proof -
  from assms(1,2) obtain h a where "get_tactical_metrics df hm params = Inr (Some h)"
    "get_tactical_metrics df aw params = Inr (Some a)"
    using get_tactical_metrics_Some_iff[of df hm params]
      get_tactical_metrics_Some_iff[of df aw params] by auto
  from simulate_match_prediction[OF this assms(3)] show ?thesis by blast
qed

text \<open>
  Claim C9 says that \<open>simulate_match\<close> signals the missing-data error if and only if at
  least one of the two teams has no row in the table. On the frame without columns, which
  \<open>load_match_squads\<close> returns for a lineup sheet without any name, both teams have no
  row and \<open>simulate_match\<close> does not give the error result: reading the column \<open>country\<close>
  raises \<open>KeyError\<close>. (For every table that has its columns the claim holds, see
  \<open>is_error_result_simulate_match\<close>, \<open>empty_units_count_default\<close> and
  \<open>sparse_team_is_predicted\<close>.)
\<close>

theorem missing_data_raises_without_columns:
  "build_match_squad ''France'' ''Ireland'' ratings_example lineup_no_names = NoColumns
   \<and> team_rows (build_match_squad ''France'' ''Ireland'' ratings_example lineup_no_names)
         ''France'' = []
   \<and> team_rows (build_match_squad ''France'' ''Ireland'' ratings_example lineup_no_names)
         ''Ireland'' = []
   \<and> simulate_match ''France'' ''Ireland''
         (build_match_squad ''France'' ''Ireland'' ratings_example lineup_no_names) DEFAULT_CONFIG
       = Inl (KeyError ''country'')
   \<and> \<not> is_error_result (simulate_match ''France'' ''Ireland''
         (build_match_squad ''France'' ''Ireland'' ratings_example lineup_no_names) DEFAULT_CONFIG)"
proof -
  have b: "build_match_squad ''France'' ''Ireland'' ratings_example lineup_no_names = NoColumns"
    by (simp add: build_match_squad_def lineup_no_names_def Let_def)
  show ?thesis
    unfolding b by (simp add: simulate_match_NoColumns team_rows_def is_error_result_def)
qed

subsection \<open>Squads of constant skill\<close>

lemma mean_const:
  assumes "xs \<noteq> []" "\<forall>x\<in>set xs. x = c"
  shows "mean xs = c"
proof -
  from assms(2) have "sum_list xs = real (length xs) * c"
    by (induction xs) (auto simp: algebra_simps)
  with assms(1) show ?thesis by (simp add: mean_def)
qed

lemma skill_mean_const:
  assumes "rows t \<noteq> []" "\<forall>r\<in>set (rows t). skill r = c"
  shows "skill_mean t = c"
  unfolding skill_mean_def using assms by (intro mean_const) auto

lemma get_unit_average_pack_const:
  assumes "\<forall>r\<in>set (rows sub). skill r = c" "\<forall>r\<in>set (rows sub). position_group r = ''Forwards''"
  shows "get_unit_average sub ''Pack'' = (if rows sub = [] then 70 else c)"
proof (cases "rows sub = []")
  case True
  then show ?thesis by (simp add: get_unit_average_def empty_def)
next
  case False
  have f: "filter (\<lambda>r. position_group r = ''Forwards'') (rows sub) = rows sub"
    using assms(2) by (simp add: filter_id_conv)
  have "skill_mean (select (\<lambda>r. position_group r = ''Forwards'') sub) = c"
    by (rule skill_mean_const) (use False assms(1) in \<open>simp_all add: rows_select f\<close>)
  with False show ?thesis
    by (simp add: get_unit_average_def empty_def Let_def rows_select f)
qed

lemma get_unit_average_backs_const:
  assumes "\<forall>r\<in>set (rows sub). skill r = c" "\<forall>r\<in>set (rows sub). position_group r = ''Backs''"
      and "u = ''Control'' \<or> u = ''Strike''"
  shows "get_unit_average sub u = (if rows sub = [] then 70 else c)"
proof (cases "rows sub = []")
  case True
  then show ?thesis by (simp add: get_unit_average_def empty_def)
next
  case False
  have f: "filter (\<lambda>r. position_group r = ''Backs'') (rows sub) = rows sub"
    using assms(2) by (simp add: filter_id_conv)
  have sm: "skill_mean (select P sub) = c" if "rows (select P sub) \<noteq> []" for P
    by (rule skill_mean_const) (use that assms(1) in \<open>auto simp: rows_select\<close>)
  have sb: "select (\<lambda>r. position_group r = ''Backs'') sub = sub"
    using f by (cases sub) simp_all
  have sm0: "skill_mean sub = c"
    by (rule skill_mean_const) (use False assms(1) in auto)
  show ?thesis
    using False assms(3) sm[of "\<lambda>r. shirt_number r \<in> {9, 10}"] sm[of "\<lambda>r. shirt_number r \<notin> {9, 10}"]
    by (auto simp: get_unit_average_def empty_def Let_def sb sm0)
qed

lemma get_tactical_metrics_const:
  assumes ne: "team_rows df cntry \<noteq> []"
      and sk: "\<forall>r\<in>set (team_rows df cntry). skill r = c"
  shows "get_tactical_metrics df cntry params =
     Inr (Some \<lparr>total_score =
              (unit_value df cntry 1 ''Forwards'' c * WEIGHT_PACK params
               + unit_value df cntry 1 ''Backs'' c * WEIGHT_CONTROL params
               + unit_value df cntry 1 ''Backs'' c * WEIGHT_STRIKE params) * WEIGHT_STARTERS params
              + (unit_value df cntry 0 ''Forwards'' c * WEIGHT_PACK params
               + unit_value df cntry 0 ''Backs'' c * WEIGHT_CONTROL params
               + unit_value df cntry 0 ''Backs'' c * WEIGHT_STRIKE params) * WEIGHT_BENCH params,
           pack_xv = unit_value df cntry 1 ''Forwards'' c,
           pack_bench = unit_value df cntry 0 ''Forwards'' c\<rparr>)"
proof -
  define sub where "sub s pg = select (\<lambda>r. position_group r = pg)
      (select (\<lambda>r. starting r = s) (select (\<lambda>r. country r = cntry) df))" for s pg
  have rows_sub: "rows (sub s pg) = unit_rows df cntry s pg" for s pg
    by (simp add: sub_def unit_rows_def team_rows_def)
  have sk_sub: "\<forall>r\<in>set (rows (sub s pg)). skill r = c" for s pg
    using sk by (auto simp: rows_sub unit_rows_def)
  have pg_sub: "\<forall>r\<in>set (rows (sub s pg)). position_group r = pg" for s pg
    by (auto simp: rows_sub unit_rows_def)
  have pack: "get_unit_average (sub s ''Forwards'') ''Pack'' = unit_value df cntry s ''Forwards'' c" for s
    using get_unit_average_pack_const[OF sk_sub pg_sub, of s] by (simp add: unit_value_def rows_sub)
  have backs: "get_unit_average (sub s ''Backs'') u = unit_value df cntry s ''Backs'' c"
    if "u = ''Control'' \<or> u = ''Strike''" for s u
    using get_unit_average_backs_const[OF sk_sub pg_sub that, of s] by (simp add: unit_value_def rows_sub)
  have sq: "\<not> empty (select (\<lambda>r. country r = cntry) df)"
    using ne by (simp add: empty_def team_rows_def)
  from ne obtain s rs where df: "df = Frame s rs"
    by (cases df) (auto simp: team_rows_def)
  have "get_tactical_metrics df cntry params =
     Inr (Some \<lparr>total_score =
              (get_unit_average (sub 1 ''Forwards'') ''Pack'' * WEIGHT_PACK params
               + get_unit_average (sub 1 ''Backs'') ''Control'' * WEIGHT_CONTROL params
               + get_unit_average (sub 1 ''Backs'') ''Strike'' * WEIGHT_STRIKE params)
                * WEIGHT_STARTERS params
              + (get_unit_average (sub 0 ''Forwards'') ''Pack'' * WEIGHT_PACK params
               + get_unit_average (sub 0 ''Backs'') ''Control'' * WEIGHT_CONTROL params
               + get_unit_average (sub 0 ''Backs'') ''Strike'' * WEIGHT_STRIKE params)
                * WEIGHT_BENCH params,
           pack_xv = get_unit_average (sub 1 ''Forwards'') ''Pack'',
           pack_bench = get_unit_average (sub 0 ''Forwards'') ''Pack''\<rparr>)"
    using sq unfolding get_tactical_metrics_def Let_def sub_def df
    by simp
  then show ?thesis
    by (simp add: pack backs)
qed


subsection \<open>Numeric bounds: \<open>\<pi>\<close>, the error function near \<open>0\<close>\<close>

lemma arctan_upper: "0 \<le> x \<Longrightarrow> arctan x \<le> x"
proof -
  assume x: "0 \<le> x"
  have "0 - arctan 0 \<le> x - arctan x"
  proof (rule DERIV_nonneg_imp_nondecreasing[OF x])
    fix y :: real
    have "DERIV (\<lambda>y. y - arctan y) y :> 1 - inverse (1 + y\<^sup>2)"
      by (intro derivative_intros DERIV_arctan)
    moreover have "inverse (1 + y\<^sup>2) \<le> 1"
      by (rule inverse_le_1_iff[THEN iffD2]) simp
    ultimately show "\<exists>d. DERIV (\<lambda>y. y - arctan y) y :> d \<and> 0 \<le> d"
      by (intro exI[of _ "1 - inverse (1 + y\<^sup>2)"]) simp
  qed
  then show ?thesis by simp
qed

lemma arctan_lower: "0 \<le> x \<Longrightarrow> x - x ^ 3 / 3 \<le> arctan x"
proof -
  assume x: "0 \<le> x"
  have "arctan 0 - (0 - 0 ^ 3 / 3) \<le> arctan x - (x - x ^ 3 / 3)"
  proof (rule DERIV_nonneg_imp_nondecreasing[OF x])
    fix y :: real
    have "DERIV (\<lambda>y. arctan y - (y - y ^ 3 / 3)) y :> inverse (1 + y\<^sup>2) - (1 - y\<^sup>2)"
      by (auto intro!: derivative_eq_intros simp: power2_eq_square)
    moreover have "1 - y\<^sup>2 \<le> inverse (1 + y\<^sup>2)"
    proof -
      have pos: "0 < 1 + y\<^sup>2" by (rule add_pos_nonneg) simp_all
      have "(1 - y\<^sup>2) * (1 + y\<^sup>2) = 1 - (y\<^sup>2)\<^sup>2" by (simp add: algebra_simps power2_eq_square)
      also have "\<dots> \<le> 1" by simp
      finally have "1 - y\<^sup>2 \<le> 1 / (1 + y\<^sup>2)"
        using pos by (simp add: pos_le_divide_eq)
      then show ?thesis by (simp add: inverse_eq_divide)
    qed
    ultimately show "\<exists>d. DERIV (\<lambda>y. arctan y - (y - y ^ 3 / 3)) y :> d \<and> 0 \<le> d"
      by (intro exI[of _ "inverse (1 + y\<^sup>2) - (1 - y\<^sup>2)"]) simp
  qed
  then show ?thesis by simp
qed

lemma pi_bounds: "3.14 < pi" "pi < 3.19"
proof -
  have a5u: "arctan (1 / 5) \<le> 1 / 5" by (rule arctan_upper) simp
  have a5l: "1 / 5 - (1 / 5) ^ 3 / 3 \<le> arctan (1 / 5)" by (rule arctan_lower) simp
  have a239u: "arctan (1 / 239) \<le> 1 / 239" by (rule arctan_upper) simp
  have a239l: "1 / 239 - (1 / 239) ^ 3 / 3 \<le> arctan (1 / 239)" by (rule arctan_lower) simp
  have m: "pi = 4 * (4 * arctan (1 / 5) - arctan (1 / 239))"
    using machin by simp
  show "3.14 < pi"
    unfolding m using a5l a239u by (simp add: power3_eq_cube)
  show "pi < 3.19"
    unfolding m using a5u a239l by (simp add: power3_eq_cube)
qed

lemma erf_series_upper: "0 \<le> x \<Longrightarrow> erf_series x \<le> x"
proof -
  assume x: "0 \<le> x"
  have "0 - erf_series 0 \<le> x - erf_series x"
  proof (rule DERIV_nonneg_imp_nondecreasing[OF x])
    fix y :: real
    have "DERIV (\<lambda>y. y - erf_series y) y :> 1 - exp (- (y\<^sup>2))"
      by (intro derivative_intros DERIV_erf_series)
    then show "\<exists>d. DERIV (\<lambda>y. y - erf_series y) y :> d \<and> 0 \<le> d"
      by (intro exI[of _ "1 - exp (- (y\<^sup>2))"]) simp
  qed
  then show ?thesis by (simp add: erf_series_0)
qed

lemma erf_series_lower: "0 \<le> x \<Longrightarrow> x - x ^ 3 / 3 \<le> erf_series x"
proof -
  assume x: "0 \<le> x"
  have "erf_series 0 - (0 - 0 ^ 3 / 3) \<le> erf_series x - (x - x ^ 3 / 3)"
  proof (rule DERIV_nonneg_imp_nondecreasing[OF x])
    fix y :: real
    have "DERIV (\<lambda>y. erf_series y - (y - y ^ 3 / 3)) y :> exp (- (y\<^sup>2)) - (1 - y\<^sup>2)"
      by (auto intro!: derivative_eq_intros DERIV_erf_series simp: power2_eq_square)
    moreover have "1 - y\<^sup>2 \<le> exp (- (y\<^sup>2))"
      using exp_ge_add_one_self[of "- (y\<^sup>2)"] by simp
    ultimately show "\<exists>d. DERIV (\<lambda>y. erf_series y - (y - y ^ 3 / 3)) y :> d \<and> 0 \<le> d"
      by (intro exI[of _ "exp (- (y\<^sup>2)) - (1 - y\<^sup>2)"]) simp
  qed
  then show ?thesis by (simp add: erf_series_0)
qed

text \<open>\<open>\<Phi>(2 / 13.5)\<close> is about \<open>0.559\<close>.\<close>

lemma std_normal_cdf_4_27: "0.558 < std_normal_cdf (2 / 13.5)" "std_normal_cdf (2 / 13.5) < 0.56"
proof -
  define x :: real where "x = 2 / 13.5 / sqrt 2"
  have x0: "0 < x" by (simp add: x_def)
  have x2: "x\<^sup>2 = 8 / 729"
    by (simp add: x_def power_divide)
  have cdf: "std_normal_cdf (2 / 13.5) = 1 / 2 + erf_series x / sqrt pi"
    by (simp add: std_normal_cdf_def erf_def x_def)
  have sp: "0 < sqrt pi" by simp
  have sp2: "(sqrt pi)\<^sup>2 = pi" by simp
  \<comment> \<open>upper bound\<close>
  have "(x / sqrt pi)\<^sup>2 = (8 / 729) / pi"
    by (simp add: power_divide x2)
  also have "\<dots> < (8 / 729) / (157 / 50)"
    using pi_bounds(1) by (intro divide_strict_left_mono) auto
  also have "\<dots> < (3 / 50 :: real)\<^sup>2"
    by (simp add: power2_eq_square)
  finally have "x / sqrt pi < 3 / 50"
    by (rule power2_less_imp_less) simp
  moreover have "erf_series x / sqrt pi \<le> x / sqrt pi"
    using erf_series_upper[of x] x0 sp by (intro divide_right_mono) auto
  ultimately have up: "erf_series x / sqrt pi < 3 / 50"
    by linarith
  \<comment> \<open>lower bound\<close>
  have low: "x * (2179 / 2187) \<le> erf_series x"
  proof -
    have "x - x ^ 3 / 3 = x * (1 - x\<^sup>2 / 3)"
      by (simp add: algebra_simps power3_eq_cube power2_eq_square)
    also have "\<dots> = x * (2179 / 2187)"
      by (simp add: x2)
    finally show ?thesis using erf_series_lower[of x] x0 by simp
  qed
  have "(29 / 500 :: real)\<^sup>2 < (8 / 729) * (2179 / 2187)\<^sup>2 / (319 / 100)"
    by (simp add: power2_eq_square)
  also have "\<dots> < (8 / 729) * (2179 / 2187)\<^sup>2 / pi"
    using pi_bounds(2) by (intro divide_strict_left_mono) (auto intro!: mult_pos_pos)
  also have "\<dots> = (x * (2179 / 2187) / sqrt pi)\<^sup>2"
    by (simp add: power_divide power_mult_distrib x2)
  finally have "29 / 500 < x * (2179 / 2187) / sqrt pi"
    by (rule power2_less_imp_less) (use x0 in simp)
  moreover have "x * (2179 / 2187) / sqrt pi \<le> erf_series x / sqrt pi"
    using low sp by (intro divide_right_mono) auto
  ultimately have lo: "29 / 500 < erf_series x / sqrt pi"
    by linarith
  define e where "e = erf_series x / sqrt pi"
  have c: "std_normal_cdf (2 / 13.5) = 1 / 2 + e"
    unfolding e_def by (rule cdf)
  from up lo have "e < 3 / 50" "29 / 500 < e"
    by (simp_all add: e_def)
  then show "0.558 < std_normal_cdf (2 / 13.5)" "std_normal_cdf (2 / 13.5) < 0.56"
    unfolding c by simp_all
qed


section \<open>Rounding to doubles\<close>

lemma round_half_even_bounds:
  "real_of_int (round_half_even x) \<le> x + 1 / 2" "x - 1 / 2 \<le> real_of_int (round_half_even x)"
  unfolding round_half_even_def Let_def by (simp_all; linarith)+

lemma round_half_even_near:
  assumes "\<bar>x - real_of_int n\<bar> < 1 / 2"
  shows "round_half_even x = n"
proof -
  have "\<bar>real_of_int (round_half_even x) - real_of_int n\<bar> < 1"
    using round_half_even_bounds[of x] assms by linarith
  then have "\<bar>real_of_int (round_half_even x - n)\<bar> < 1" by simp
  then have "\<bar>round_half_even x - n\<bar> < 1"
    by (metis of_int_abs of_int_less_1_iff)
  then show ?thesis by simp
qed

lemma round_half_even_of_int: "round_half_even (real_of_int n) = n"
  by (rule round_half_even_near) simp

lemma round_half_even_ge:
  assumes "real_of_int n \<le> x"
  shows "n \<le> round_half_even x"
proof -
  have "real_of_int n - 1 / 2 \<le> real_of_int (round_half_even x)"
    using round_half_even_bounds(2)[of x] assms by linarith
  then have "real_of_int n < real_of_int (round_half_even x) + 1" by linarith
  then have "n < round_half_even x + 1"
    by (metis of_int_1 of_int_add of_int_less_iff)
  then show ?thesis by simp
qed

lemma round_half_even_le:
  assumes "x \<le> real_of_int n"
  shows "round_half_even x \<le> n"
proof -
  have "real_of_int (round_half_even x) \<le> real_of_int n + 1 / 2"
    using round_half_even_bounds(1)[of x] assms by linarith
  then have "real_of_int (round_half_even x) < real_of_int n + 1" by linarith
  then have "round_half_even x < n + 1"
    by (metis of_int_1 of_int_add of_int_less_iff)
  then show ?thesis by simp
qed

text \<open>The exponent \<open>e\<close> of a non-zero \<open>x\<close>, with \<open>2 ^ e \<le> \<bar>x\<bar> < 2 ^ (e + 1)\<close>, and the unit in
  the last place \<open>2 ^ (e - 52)\<close>: the significand \<open>x / ulp\<close> has magnitude in \<open>[2 ^ 52, 2 ^ 53)\<close>.\<close>

lemma exponent_bounds:
  assumes "x \<noteq> 0"
  shows "2 powr real_of_int \<lfloor>log 2 \<bar>x\<bar>\<rfloor> \<le> \<bar>x\<bar>"
    and "\<bar>x\<bar> < 2 powr (real_of_int \<lfloor>log 2 \<bar>x\<bar>\<rfloor> + 1)"
proof -
  have x: "0 < \<bar>x\<bar>" using assms by simp
  have "2 powr real_of_int \<lfloor>log 2 \<bar>x\<bar>\<rfloor> \<le> 2 powr log 2 \<bar>x\<bar>"
    by (intro powr_mono) simp_all
  then show "2 powr real_of_int \<lfloor>log 2 \<bar>x\<bar>\<rfloor> \<le> \<bar>x\<bar>"
    using x by simp
  have "2 powr log 2 \<bar>x\<bar> < 2 powr (real_of_int \<lfloor>log 2 \<bar>x\<bar>\<rfloor> + 1)"
    by (intro powr_less_mono) simp_all
  then show "\<bar>x\<bar> < 2 powr (real_of_int \<lfloor>log 2 \<bar>x\<bar>\<rfloor> + 1)"
    using x by simp
qed

lemma ulp_eq: "2 powr (real_of_int e - 52) = 2 powr real_of_int e / 2 ^ 52"
  by (simp add: powr_diff)

lemma ulp_pos: "0 < (2::real) powr (real_of_int e - 52)"
  by simp

lemma exponent_eq:
  assumes "2 powr real_of_int k \<le> \<bar>x\<bar>" "\<bar>x\<bar> < 2 powr (real_of_int k + 1)"
  shows "\<lfloor>log 2 \<bar>x\<bar>\<rfloor> = k"
proof (rule floor_unique)
  have x: "0 < \<bar>x\<bar>" using assms(1) powr_gt_zero[of 2 "real_of_int k"] by linarith
  show "real_of_int k \<le> log 2 \<bar>x\<bar>"
    using assms(1) x by (simp add: le_log_iff)
  show "log 2 \<bar>x\<bar> < real_of_int k + 1"
    using assms(2) x by (simp add: log_less_iff)
qed

lemma round_double_unfold:
  assumes "x \<noteq> 0"
  shows "round_double x
     = real_of_int (round_half_even (x / (2 powr (real_of_int \<lfloor>log 2 \<bar>x\<bar>\<rfloor> - 52))))
         * 2 powr (real_of_int \<lfloor>log 2 \<bar>x\<bar>\<rfloor> - 52)"
  using assms by (simp add: round_double_def Let_def)

lemma round_double_0: "round_double 0 = 0"
  by (simp add: round_double_def)

text \<open>A power of two is a double.\<close>

lemma round_double_power_of_2: "round_double (2 powr real_of_int k) = 2 powr real_of_int k"
proof -
  let ?x = "2 powr real_of_int k"
  have x: "?x \<noteq> 0" "\<bar>?x\<bar> = ?x" by simp_all
  have e: "\<lfloor>log 2 \<bar>?x\<bar>\<rfloor> = k" by simp
  have t: "?x / (2 powr (real_of_int k - 52)) = real_of_int (2 ^ 52)"
    by (simp add: ulp_eq)
  show ?thesis
    unfolding round_double_unfold[OF x(1)] e t round_half_even_of_int
    by (simp add: ulp_eq)
qed

lemma round_double_1: "round_double 1 = 1"
  using round_double_power_of_2[of 0] by simp

lemma round_double_half: "round_double (1 / 2) = 1 / 2"
  using round_double_power_of_2[of "- 1"] by (simp add: powr_minus field_simps)

lemma round_double_2: "round_double 2 = 2"
  using round_double_power_of_2[of 1] by simp

text \<open>Rounding keeps the sign and stays within the binade: between \<open>2 ^ e\<close> and
  \<open>2 ^ (e + 1)\<close> in magnitude.\<close>

lemma significand_bounds:
  assumes "x \<noteq> 0"
  shows "2 ^ 52 \<le> \<bar>x / (2 powr (real_of_int \<lfloor>log 2 \<bar>x\<bar>\<rfloor> - 52))\<bar>"
    and "\<bar>x / (2 powr (real_of_int \<lfloor>log 2 \<bar>x\<bar>\<rfloor> - 52))\<bar> < 2 ^ 53"
proof -
  let ?e = "\<lfloor>log 2 \<bar>x\<bar>\<rfloor>"
  have p: "0 < 2 powr real_of_int ?e" by simp
  have a: "\<bar>x / (2 powr (real_of_int ?e - 52))\<bar> = \<bar>x\<bar> * 2 ^ 52 / 2 powr real_of_int ?e"
    by (simp add: ulp_eq abs_mult abs_divide)
  have "2 powr (real_of_int ?e + 1) = 2 * 2 powr real_of_int ?e"
    by (simp add: powr_add)
  with exponent_bounds[OF assms] have b: "2 powr real_of_int ?e \<le> \<bar>x\<bar>"
    "\<bar>x\<bar> < 2 * 2 powr real_of_int ?e" by simp_all
  show "2 ^ 52 \<le> \<bar>x / (2 powr (real_of_int ?e - 52))\<bar>"
    unfolding a using b(1) p by (simp add: le_divide_eq)
  show "\<bar>x / (2 powr (real_of_int ?e - 52))\<bar> < 2 ^ 53"
    unfolding a using b(2) p by (simp add: divide_less_eq)
qed

lemma round_double_nonneg:
  assumes "0 \<le> x"
  shows "0 \<le> round_double x"
proof (cases "x = 0")
  case True
  then show ?thesis by (simp add: round_double_0)
next
  case False
  let ?u = "2 powr (real_of_int \<lfloor>log 2 \<bar>x\<bar>\<rfloor> - 52)"
  have "real_of_int 0 \<le> x / ?u" using assms by simp
  then have "0 \<le> round_half_even (x / ?u)" by (rule round_half_even_ge)
  then show ?thesis
    unfolding round_double_unfold[OF False] by simp
qed

lemma round_double_pos:
  assumes "0 < x"
  shows "0 < round_double x" "round_double x \<le> 2 * x"
proof -
  let ?u = "2 powr (real_of_int \<lfloor>log 2 \<bar>x\<bar>\<rfloor> - 52)"
  let ?n = "round_half_even (x / ?u)"
  have x0: "x \<noteq> 0" using assms by simp
  have u: "0 < ?u" by simp
  have t: "2 ^ 52 \<le> x / ?u"
    using significand_bounds(1)[OF x0] assms u by (simp add: abs_divide)
  have p52: "(1::real) \<le> 2 ^ 52" by simp
  have lo: "0 < real_of_int ?n"
    using round_half_even_bounds(2)[of "x / ?u"] t p52 by linarith
  have hi: "real_of_int ?n \<le> 2 * (x / ?u)"
    using round_half_even_bounds(1)[of "x / ?u"] t p52 by linarith
  show "0 < round_double x"
    unfolding round_double_unfold[OF x0] using lo u by simp
  have "real_of_int ?n * ?u \<le> 2 * (x / ?u) * ?u"
    using hi u by (intro mult_right_mono) simp_all
  then show "round_double x \<le> 2 * x"
    unfolding round_double_unfold[OF x0] using u by simp
qed

lemma round_double_abs_le_binade:
  assumes "x \<noteq> 0"
  shows "\<bar>round_double x\<bar> \<le> 2 powr (real_of_int \<lfloor>log 2 \<bar>x\<bar>\<rfloor> + 1)"
    and "2 powr real_of_int \<lfloor>log 2 \<bar>x\<bar>\<rfloor> \<le> \<bar>round_double x\<bar>"
proof -
  let ?e = "\<lfloor>log 2 \<bar>x\<bar>\<rfloor>"
  let ?u = "2 powr (real_of_int ?e - 52)"
  let ?n = "round_half_even (x / ?u)"
  have u: "0 < ?u" by simp
  have t: "\<bar>x / ?u\<bar> \<le> real_of_int (2 ^ 53)" "real_of_int (2 ^ 52) \<le> \<bar>x / ?u\<bar>"
    using significand_bounds[OF assms] by simp_all
  have tb: "x / ?u \<le> real_of_int (2 ^ 53)" "real_of_int (- (2 ^ 53)) \<le> x / ?u"
    using t(1) by (simp_all only: abs_le_iff of_int_minus) linarith+
  have "?n \<le> 2 ^ 53"
    using tb(1) by (rule round_half_even_le)
  moreover have "- (2 ^ 53) \<le> ?n"
    using tb(2) by (rule round_half_even_ge)
  ultimately have "?n \<le> 2 ^ 53" "- (2 ^ 53) \<le> ?n" .
  then have "real_of_int ?n \<le> real_of_int (2 ^ 53)" "real_of_int (- (2 ^ 53)) \<le> real_of_int ?n"
    by (simp_all only: of_int_le_iff)
  then have n: "\<bar>real_of_int ?n\<bar> \<le> 2 ^ 53" by simp
  have "\<bar>round_double x\<bar> = \<bar>real_of_int ?n\<bar> * ?u"
    unfolding round_double_unfold[OF assms] by (simp add: abs_mult)
  also have "\<dots> \<le> 2 ^ 53 * ?u"
    using n u by (intro mult_right_mono) simp_all
  also have "\<dots> = 2 powr (real_of_int ?e + 1)"
    by (simp add: ulp_eq powr_add)
  finally show "\<bar>round_double x\<bar> \<le> 2 powr (real_of_int ?e + 1)" .
  have "2 ^ 52 \<le> ?n \<or> ?n \<le> - (2 ^ 52)"
  proof (cases "0 \<le> x / ?u")
    case True
    with t(2) have "real_of_int (2 ^ 52) \<le> x / ?u" by simp
    then show ?thesis by (intro disjI1 round_half_even_ge)
  next
    case False
    with t(2) have "x / ?u \<le> real_of_int (- (2 ^ 52))" by simp
    then show ?thesis by (intro disjI2 round_half_even_le)
  qed
  then have "real_of_int (2 ^ 52) \<le> real_of_int ?n \<or> real_of_int ?n \<le> real_of_int (- (2 ^ 52))"
    by (simp only: of_int_le_iff)
  then have n2: "2 ^ 52 \<le> \<bar>real_of_int ?n\<bar>" by auto
  have "2 powr real_of_int ?e = 2 ^ 52 * ?u"
    by (simp add: ulp_eq)
  also have "\<dots> \<le> \<bar>real_of_int ?n\<bar> * ?u"
    using n2 u by (intro mult_right_mono) simp_all
  also have "\<dots> = \<bar>round_double x\<bar>"
    unfolding round_double_unfold[OF assms] by (simp add: abs_mult)
  finally show "2 powr real_of_int ?e \<le> \<bar>round_double x\<bar>" .
qed

lemma round_double_abs_le:
  assumes "\<bar>x\<bar> \<le> 2 powr real_of_int k"
  shows "\<bar>round_double x\<bar> \<le> 2 powr real_of_int k"
proof (cases "x = 0")
  case True
  then show ?thesis by (simp add: round_double_0)
next
  case x0: False
  show ?thesis
  proof (cases "\<bar>x\<bar> = 2 powr real_of_int k")
    case True
    then have "x = 2 powr real_of_int k \<or> x = - (2 powr real_of_int k)" by linarith
    then show ?thesis
    proof
      assume "x = 2 powr real_of_int k"
      then show ?thesis by (simp add: round_double_power_of_2)
    next
      assume m: "x = - (2 powr real_of_int k)"
      have e: "\<lfloor>log 2 \<bar>x\<bar>\<rfloor> = k" by (simp add: m)
      have t: "x / (2 powr (real_of_int k - 52)) = real_of_int (- (2 ^ 52))"
        by (simp add: m ulp_eq)
      have "round_double x = - (2 powr real_of_int k)"
        unfolding round_double_unfold[OF x0] e t round_half_even_of_int
        by (simp add: ulp_eq)
      then show ?thesis by simp
    qed
  next
    case False
    with assms have lt: "\<bar>x\<bar> < 2 powr real_of_int k" by simp
    have "2 powr real_of_int \<lfloor>log 2 \<bar>x\<bar>\<rfloor> < 2 powr real_of_int k"
      using exponent_bounds(1)[OF x0] lt by linarith
    then have "real_of_int \<lfloor>log 2 \<bar>x\<bar>\<rfloor> < real_of_int k" by simp
    then have "\<lfloor>log 2 \<bar>x\<bar>\<rfloor> + 1 \<le> k" by linarith
    then have "real_of_int \<lfloor>log 2 \<bar>x\<bar>\<rfloor> + 1 \<le> real_of_int k"
      by (metis of_int_1 of_int_add of_int_le_iff)
    then have "2 powr (real_of_int \<lfloor>log 2 \<bar>x\<bar>\<rfloor> + 1) \<le> 2 powr real_of_int k"
      by (intro powr_mono) simp_all
    with round_double_abs_le_binade(1)[OF x0] show ?thesis by linarith
  qed
qed

lemma round_double_ge:
  assumes "2 powr real_of_int k \<le> x"
  shows "2 powr real_of_int k \<le> round_double x"
proof -
  have x: "0 < x" using assms powr_gt_zero[of 2 "real_of_int k"] by linarith
  then have x0: "x \<noteq> 0" by simp
  have "real_of_int k \<le> log 2 \<bar>x\<bar>"
    using assms x by (simp add: le_log_iff)
  then have "k \<le> \<lfloor>log 2 \<bar>x\<bar>\<rfloor>" by (simp add: le_floor_iff)
  then have "real_of_int k \<le> real_of_int \<lfloor>log 2 \<bar>x\<bar>\<rfloor>" by simp
  then have "2 powr real_of_int k \<le> 2 powr real_of_int \<lfloor>log 2 \<bar>x\<bar>\<rfloor>"
    by (intro powr_mono) simp_all
  also have "\<dots> \<le> \<bar>round_double x\<bar>"
    by (rule round_double_abs_le_binade(2)[OF x0])
  also have "\<dots> = round_double x"
    using round_double_pos(1)[OF x] by simp
  finally show ?thesis .
qed

text \<open>Adding less than half a unit in the last place to \<open>1\<close> is lost.\<close>

lemma round_double_one_plus:
  assumes "0 \<le> d" "d < 1 / 2 ^ 53"
  shows "round_double (1 + d) = 1"
proof -
  let ?x = "1 + d"
  have x0: "?x \<noteq> 0" using assms by simp
  have "d < 1" using assms(2) by (rule less_trans) simp
  then have e: "\<lfloor>log 2 \<bar>?x\<bar>\<rfloor> = 0"
    using assms(1) by (intro exponent_eq) simp_all
  have u: "(2::real) powr - 52 = 1 / 2 ^ 52"
    using ulp_eq[of 0] by simp
  have "d * 2 ^ 52 < 1 / 2 ^ 53 * 2 ^ 52"
    using assms(2) by (intro mult_strict_right_mono) simp_all
  then have "\<bar>?x / (1 / 2 ^ 52) - real_of_int (2 ^ 52)\<bar> < 1 / 2"
    using assms(1) by (simp add: algebra_simps)
  then have n: "round_half_even (?x / (1 / 2 ^ 52)) = 2 ^ 52"
    by (rule round_half_even_near)
  show ?thesis
    using round_double_unfold[OF x0] n by (simp add: e u)
qed

section \<open>The win probability in double arithmetic\<close>

lemma erf_le_twice:
  assumes "0 \<le> x"
  shows "erf x \<le> 2 * x"
proof -
  have "1 \<le> sqrt pi"
    using pi_bounds(1) by (simp add: real_le_rsqrt)
  then have c: "2 / sqrt pi \<le> 2"
    by (simp add: divide_le_eq)
  have "erf x = 2 / sqrt pi * erf_series x" by (simp add: erf_def)
  also have "\<dots> \<le> 2 / sqrt pi * x"
    using erf_series_upper[OF assms] by (intro mult_left_mono) simp_all
  also have "\<dots> \<le> 2 * x"
    using c assms by (intro mult_right_mono) simp_all
  finally show ?thesis .
qed

lemma round_double_sqrt2_ge_1: "1 \<le> round_double (sqrt 2)"
  using round_double_ge[of 0 "sqrt 2"] by simp

text \<open>At a final margin of \<open>0\<close> the computed probability is \<open>0.5\<close>, and it is always in
  \<open>[0, 1]\<close>.\<close>

lemma win_probability_double_zero: "win_probability_double 0 std_dev = 1 / 2"
  by (simp add: win_probability_double_def Let_def round_double_0 erf_0 round_double_1
      round_double_half)

lemma win_probability_double_bounds:
  "0 \<le> win_probability_double final_margin std_dev"
  "win_probability_double final_margin std_dev \<le> 1"
proof -
  define x where "x = round_double (round_double (final_margin / std_dev) / round_double (sqrt 2))"
  define e where "e = round_double (erf x)"
  define s where "s = round_double (1 + e)"
  have w: "win_probability_double final_margin std_dev = round_double (s / 2)"
    by (simp add: win_probability_double_def Let_def x_def e_def s_def)
  have "\<bar>erf x\<bar> \<le> 2 powr real_of_int 0"
    using erf_less_1[of x] erf_gt_m1[of x] by simp
  then have "\<bar>e\<bar> \<le> 2 powr real_of_int 0"
    unfolding e_def by (rule round_double_abs_le)
  then have e: "- 1 \<le> e" "e \<le> 1" by simp_all
  then have "\<bar>1 + e\<bar> \<le> 2 powr real_of_int 1" by simp
  then have "\<bar>s\<bar> \<le> 2 powr real_of_int 1"
    unfolding s_def by (rule round_double_abs_le)
  moreover have "0 \<le> s"
    unfolding s_def using e(1) by (intro round_double_nonneg) simp
  ultimately have s: "0 \<le> s / 2" "\<bar>s / 2\<bar> \<le> 2 powr real_of_int 0" by simp_all
  show "0 \<le> win_probability_double final_margin std_dev"
    unfolding w using s(1) by (rule round_double_nonneg)
  have "\<bar>round_double (s / 2)\<bar> \<le> 2 powr real_of_int 0"
    using s(2) by (rule round_double_abs_le)
  then show "win_probability_double final_margin std_dev \<le> 1"
    unfolding w by simp
qed

text \<open>A positive final margin of at most \<open>2 / 10 ^ 18\<close> with a deviation of at least \<open>1\<close>
  gives an \<open>erf\<close> value below half a unit in the last place of \<open>1\<close>, which the addition
  \<open>1 + erf(...)\<close> loses: the computed probability is exactly \<open>0.5\<close>.\<close>

lemma win_probability_double_tiny:
  assumes m: "0 < final_margin" "final_margin \<le> 2 / 10 ^ 18" and sd: "1 \<le> std_dev"
  shows "win_probability_double final_margin std_dev = 1 / 2"
proof -
  define z where "z = round_double (final_margin / std_dev)"
  define x where "x = round_double (z / round_double (sqrt 2))"
  define e where "e = round_double (erf x)"
  have w: "win_probability_double final_margin std_dev = round_double (1 / 2 * round_double (1 + e))"
    by (simp add: win_probability_double_def Let_def z_def x_def e_def)
  have q: "0 < final_margin / std_dev" "final_margin / std_dev \<le> final_margin"
    using m(1) sd by (simp_all add: divide_le_eq mult_le_cancel_left1)
  have z: "0 < z" "z \<le> 2 * final_margin"
    using round_double_pos[OF q(1)] q(2) by (simp_all add: z_def)
  have r: "0 < z / round_double (sqrt 2)" "z / round_double (sqrt 2) \<le> z"
    using z(1) round_double_sqrt2_ge_1 by (simp_all add: divide_le_eq mult_le_cancel_left1)
  have x: "0 < x" "x \<le> 4 * final_margin"
    using round_double_pos[OF r(1)] r(2) z(2) by (simp_all add: x_def)
  have f: "0 < erf x" "erf x \<le> 8 * final_margin"
    using erf_strict_mono[OF x(1)] erf_le_twice[of x] x by (simp_all add: erf_0)
  have e: "0 < e" "e \<le> 16 * final_margin"
    using round_double_pos[OF f(1)] f(2) by (simp_all add: e_def)
  have "16 * final_margin \<le> 32 / 10 ^ 18" using m(2) by simp
  also have "\<dots> < (1::real) / 2 ^ 53" by simp
  finally have "e < 1 / 2 ^ 53" using e(2) by simp
  with e(1) have "round_double (1 + e) = 1"
    by (intro round_double_one_plus) simp_all
  then show ?thesis
    by (simp add: w round_double_half)
qed


subsection \<open>The scenario of equal squads\<close>

lemma squad_of_team_rows:
  "team_rows (Frame b (squad_of t1 ns @ squad_of t2 ms)) t1
     = squad_of t1 ns @ (if t2 = t1 then squad_of t2 ms else [])"
  "t1 \<noteq> t2 \<Longrightarrow> team_rows (Frame b (squad_of t1 ns @ squad_of t2 ms)) t2
     = squad_of t2 ms"
  by (auto simp: team_rows_def squad_of_def filter_id_conv filter_empty_conv comp_def)

lemma skill_squad_of: "r \<in> set (squad_of t ns) \<Longrightarrow> skill r = 75"
  by (auto simp: squad_of_def)

lemma uneven_bench_team_rows:
  "team_rows uneven_bench_table ''Georgia''
     = squad_of ''Georgia'' [1, 2, 3, 4, 5, 6, 7, 8, 9, 10, 11, 12, 13, 14, 15, 16, 21]"
  "team_rows uneven_bench_table ''Portugal''
     = squad_of ''Portugal'' [1, 2, 3, 4, 5, 6, 7, 8, 9, 10, 11, 12, 13, 14, 15, 16, 17]"
  unfolding uneven_bench_table_def by (simp_all add: squad_of_team_rows)

lemma even_team_rows:
  "team_rows even_table ''Georgia''
     = squad_of ''Georgia'' [1, 2, 3, 4, 5, 6, 7, 8, 9, 10, 11, 12, 13, 14, 15, 16, 17, 18, 21, 22]"
  "team_rows even_table ''Portugal''
     = squad_of ''Portugal'' [1, 2, 3, 4, 5, 6, 7, 8, 9, 10, 11, 12, 13, 14, 15, 16, 17, 18, 21, 22]"
  unfolding even_table_def by (simp_all add: squad_of_team_rows)

lemma uneven_bench_units:
  "unit_value uneven_bench_table ''Georgia'' 1 ''Forwards'' 75 = 75"
  "unit_value uneven_bench_table ''Georgia'' 1 ''Backs'' 75 = 75"
  "unit_value uneven_bench_table ''Georgia'' 0 ''Forwards'' 75 = 75"
  "unit_value uneven_bench_table ''Georgia'' 0 ''Backs'' 75 = 75"
  "unit_value uneven_bench_table ''Portugal'' 1 ''Forwards'' 75 = 75"
  "unit_value uneven_bench_table ''Portugal'' 1 ''Backs'' 75 = 75"
  "unit_value uneven_bench_table ''Portugal'' 0 ''Forwards'' 75 = 75"
  "unit_value uneven_bench_table ''Portugal'' 0 ''Backs'' 75 = 70"
  by (simp_all add: unit_value_def unit_rows_def uneven_bench_team_rows squad_of_def
      infer_position_group_def)

lemma uneven_bench_nonempty:
  "team_rows uneven_bench_table ''Georgia'' \<noteq> []"
  "team_rows uneven_bench_table ''Portugal'' \<noteq> []"
  by (simp_all add: uneven_bench_team_rows squad_of_def)

lemma uneven_bench_skill:
  "\<forall>r\<in>set (team_rows uneven_bench_table ''Georgia''). skill r = 75"
  "\<forall>r\<in>set (team_rows uneven_bench_table ''Portugal''). skill r = 75"
  unfolding uneven_bench_team_rows by (blast intro: skill_squad_of)+

lemma unlisted_elo:
  "dict_get WR_ELO ''Georgia'' 75 = 75" "dict_get WR_ELO ''Portugal'' 75 = 75"
  by (simp_all add: dict_get_def WR_ELO_def)


text \<open>
  Claim C8, as stated: for two teams each with 15 starters and some substitutes, every
  skill \<open>75\<close>, equal ELO and the default configuration (home advantage \<open>2\<close>), the final
  margin is exactly \<open>2\<close>. It fails when a unit is present in one squad and absent in the
  other, since an absent unit counts \<open>70\<close>: Georgia with a forward and a back on the bench
  at home to Portugal with two forwards on the bench, 15 starters each, all of skill \<open>75\<close>,
  both of ELO \<open>75\<close>, has margin \<open>2.3315\<close>.
\<close>

theorem equal_skill_margin_counterexample:
  "map skill (rows uneven_bench_table) = replicate 34 75
   \<and> map starting (team_rows uneven_bench_table ''Georgia'') = replicate 15 1 @ replicate 2 0
   \<and> map starting (team_rows uneven_bench_table ''Portugal'') = replicate 15 1 @ replicate 2 0
   \<and> dict_get WR_ELO ''Georgia'' 75 = dict_get WR_ELO ''Portugal'' 75
   \<and> HOME_ADVANTAGE DEFAULT_CONFIG = 2
   \<and> result_margin (simulate_match ''Georgia'' ''Portugal'' uneven_bench_table DEFAULT_CONFIG)
       = Some (23315 / 10000)"
proof -
  have sk: "map skill (rows uneven_bench_table) = replicate 34 75"
    by (simp add: uneven_bench_table_def squad_of_def eval_nat_numeral)
  have st: "map starting (team_rows uneven_bench_table ''Georgia'') = replicate 15 1 @ replicate 2 0"
    "map starting (team_rows uneven_bench_table ''Portugal'') = replicate 15 1 @ replicate 2 0"
    by (simp_all add: uneven_bench_team_rows squad_of_def eval_nat_numeral)
  have g: "get_tactical_metrics uneven_bench_table ''Georgia'' DEFAULT_CONFIG
      = Inr (Some \<lparr>total_score = 75, pack_xv = 75, pack_bench = 75\<rparr>)"
    using get_tactical_metrics_const[OF uneven_bench_nonempty(1) uneven_bench_skill(1), of DEFAULT_CONFIG]
    by (simp add: uneven_bench_units DEFAULT_CONFIG_fields)
  have p: "get_tactical_metrics uneven_bench_table ''Portugal'' DEFAULT_CONFIG
      = Inr (Some \<lparr>total_score = 74.4, pack_xv = 75, pack_bench = 75\<rparr>)"
    using get_tactical_metrics_const[OF uneven_bench_nonempty(2) uneven_bench_skill(2), of DEFAULT_CONFIG]
    by (simp add: uneven_bench_units DEFAULT_CONFIG_fields)
  have "result_margin (simulate_match ''Georgia'' ''Portugal'' uneven_bench_table DEFAULT_CONFIG)
       = Some (23315 / 10000)"
    by (simp add: result_margin_def simulate_match_def g p unlisted_elo Let_def py_truediv_def
        DEFAULT_CONFIG_fields)
  with sk st show ?thesis
    by (simp add: unlisted_elo DEFAULT_CONFIG_fields)
qed


text \<open>
  Claim C8, amended. For two teams with rows in the table, every skill \<open>75\<close>, the same units
  populated in both squads (starting forwards, starting backs, bench forwards and bench
  backs are each present in both or absent in both), equal ELO ratings and the default
  configuration with its home advantage \<open>2\<close>: the final margin is exactly \<open>2\<close> and the home
  win probability is the standard normal distribution function at \<open>2 / 13.5\<close>, which lies
  between \<open>0.558\<close> and \<open>0.56\<close>.
\<close>

theorem equal_squads_margin:
  assumes ne: "team_rows df hm \<noteq> []" "team_rows df aw \<noteq> []"
      and sk: "\<forall>r\<in>set (team_rows df hm) \<union> set (team_rows df aw). skill r = 75"
      and same: "\<forall>s\<in>{0, 1}. \<forall>pg\<in>{''Forwards'', ''Backs''}.
                   unit_rows df hm s pg = [] \<longleftrightarrow> unit_rows df aw s pg = []"
      and elo_eq: "dict_get WR_ELO hm 75 = dict_get WR_ELO aw 75"
  shows "\<exists>p. simulate_match hm aw df DEFAULT_CONFIG = Inr (Prediction p)
           \<and> margin p = 2
           \<and> prob p = std_normal_cdf (2 / 13.5)
           \<and> 0.558 < prob p \<and> prob p < 0.56"
proof -
  have uv: "unit_value df hm s pg 75 = unit_value df aw s pg 75"
    if "s \<in> {0, 1}" "pg \<in> {''Forwards'', ''Backs''}" for s pg
    using same that by (auto simp: unit_value_def)
  have h: "get_tactical_metrics df hm DEFAULT_CONFIG = Inr (Some
      \<lparr>total_score =
              (unit_value df aw 1 ''Forwards'' 75 * WEIGHT_PACK DEFAULT_CONFIG
               + unit_value df aw 1 ''Backs'' 75 * WEIGHT_CONTROL DEFAULT_CONFIG
               + unit_value df aw 1 ''Backs'' 75 * WEIGHT_STRIKE DEFAULT_CONFIG)
                * WEIGHT_STARTERS DEFAULT_CONFIG
              + (unit_value df aw 0 ''Forwards'' 75 * WEIGHT_PACK DEFAULT_CONFIG
               + unit_value df aw 0 ''Backs'' 75 * WEIGHT_CONTROL DEFAULT_CONFIG
               + unit_value df aw 0 ''Backs'' 75 * WEIGHT_STRIKE DEFAULT_CONFIG)
                * WEIGHT_BENCH DEFAULT_CONFIG,
           pack_xv = unit_value df aw 1 ''Forwards'' 75,
           pack_bench = unit_value df aw 0 ''Forwards'' 75\<rparr>)"
    using get_tactical_metrics_const[OF ne(1), of 75 DEFAULT_CONFIG] sk
    by (simp add: uv)
  have a: "get_tactical_metrics df aw DEFAULT_CONFIG = Inr (Some
      \<lparr>total_score =
              (unit_value df aw 1 ''Forwards'' 75 * WEIGHT_PACK DEFAULT_CONFIG
               + unit_value df aw 1 ''Backs'' 75 * WEIGHT_CONTROL DEFAULT_CONFIG
               + unit_value df aw 1 ''Backs'' 75 * WEIGHT_STRIKE DEFAULT_CONFIG)
                * WEIGHT_STARTERS DEFAULT_CONFIG
              + (unit_value df aw 0 ''Forwards'' 75 * WEIGHT_PACK DEFAULT_CONFIG
               + unit_value df aw 0 ''Backs'' 75 * WEIGHT_CONTROL DEFAULT_CONFIG
               + unit_value df aw 0 ''Backs'' 75 * WEIGHT_STRIKE DEFAULT_CONFIG)
                * WEIGHT_BENCH DEFAULT_CONFIG,
           pack_xv = unit_value df aw 1 ''Forwards'' 75,
           pack_bench = unit_value df aw 0 ''Forwards'' 75\<rparr>)"
    using get_tactical_metrics_const[OF ne(2), of 75 DEFAULT_CONFIG] sk
    by simp
  have sd: "STD_DEV DEFAULT_CONFIG \<noteq> 0"
    by (simp add: DEFAULT_CONFIG_fields)
  from simulate_match_prediction[OF h a sd] obtain p where
    p: "simulate_match hm aw df DEFAULT_CONFIG = Inr (Prediction p)"
       "pack_diff (debug p) = 0"
       "tactical (debug p)
               = (if pack_diff (debug p) > MISMATCH_THRESHOLD DEFAULT_CONFIG
                  then MISMATCH_BONUS DEFAULT_CONFIG
                  else if pack_diff (debug p) < - MISMATCH_THRESHOLD DEFAULT_CONFIG
                  then - MISMATCH_BONUS DEFAULT_CONFIG
                  else 0)"
       "elo (debug p) = (dict_get WR_ELO hm 75 - dict_get WR_ELO aw 75) * ELO_SCALING DEFAULT_CONFIG"
       "margin p = tactical (debug p) * WEIGHT_MODEL_TACTICAL DEFAULT_CONFIG
                          + elo (debug p) * WEIGHT_MODEL_ELO DEFAULT_CONFIG
                          + HOME_ADVANTAGE DEFAULT_CONFIG"
       "prob p = 0.5 * (1 + erf (margin p / STD_DEV DEFAULT_CONFIG / sqrt 2))"
    by auto
  have t0: "tactical (debug p) = 0"
    by (simp add: p(3) p(2) DEFAULT_CONFIG_fields)
  have e0: "elo (debug p) = 0"
    by (simp add: p(4) elo_eq)
  have m: "margin p = 2"
    by (simp add: p(5) t0 e0 DEFAULT_CONFIG_fields)
  have pr: "prob p = std_normal_cdf (2 / 13.5)"
    unfolding p(6) m std_normal_cdf_def by (simp add: DEFAULT_CONFIG_fields)
  show ?thesis
    using p(1) m pr std_normal_cdf_4_27 by auto
qed


text \<open>The hypotheses hold for two unlisted teams with 15 starters and 5 substitutes each,
  three forwards and two backs on either bench.\<close>

theorem equal_squads_margin_witness:
  "team_rows even_table ''Georgia'' \<noteq> [] \<and> team_rows even_table ''Portugal'' \<noteq> []
   \<and> map starting (team_rows even_table ''Georgia'') = replicate 15 1 @ replicate 5 0
   \<and> map starting (team_rows even_table ''Portugal'') = replicate 15 1 @ replicate 5 0
   \<and> map skill (team_rows even_table ''Georgia'') = replicate 20 75
   \<and> map skill (team_rows even_table ''Portugal'') = replicate 20 75
   \<and> dict_get WR_ELO ''Georgia'' 75 = dict_get WR_ELO ''Portugal'' 75
   \<and> (\<exists>p. simulate_match ''Georgia'' ''Portugal'' even_table DEFAULT_CONFIG = Inr (Prediction p)
           \<and> margin p = 2
           \<and> prob p = std_normal_cdf (2 / 13.5)
           \<and> 0.558 < prob p \<and> prob p < 0.56)"
proof -
  have ne: "team_rows even_table ''Georgia'' \<noteq> []" "team_rows even_table ''Portugal'' \<noteq> []"
    by (simp_all add: even_team_rows squad_of_def)
  have st: "map starting (team_rows even_table ''Georgia'') = replicate 15 1 @ replicate 5 0"
    "map starting (team_rows even_table ''Portugal'') = replicate 15 1 @ replicate 5 0"
    by (simp_all add: even_team_rows squad_of_def eval_nat_numeral)
  have sm: "map skill (team_rows even_table ''Georgia'') = replicate 20 75"
    "map skill (team_rows even_table ''Portugal'') = replicate 20 75"
    by (simp_all add: even_team_rows squad_of_def eval_nat_numeral)
  have sk: "\<forall>r\<in>set (team_rows even_table ''Georgia'') \<union> set (team_rows even_table ''Portugal'').
      skill r = 75"
    unfolding even_team_rows by (blast intro: skill_squad_of)
  have u: "unit_rows even_table ''Georgia'' 0 ''Forwards'' \<noteq> []"
    "unit_rows even_table ''Georgia'' 0 ''Backs'' \<noteq> []"
    "unit_rows even_table ''Georgia'' 1 ''Forwards'' \<noteq> []"
    "unit_rows even_table ''Georgia'' 1 ''Backs'' \<noteq> []"
    "unit_rows even_table ''Portugal'' 0 ''Forwards'' \<noteq> []"
    "unit_rows even_table ''Portugal'' 0 ''Backs'' \<noteq> []"
    "unit_rows even_table ''Portugal'' 1 ''Forwards'' \<noteq> []"
    "unit_rows even_table ''Portugal'' 1 ''Backs'' \<noteq> []"
    by (simp_all add: unit_rows_def even_team_rows squad_of_def infer_position_group_def)
  have same: "\<forall>s\<in>{0, 1}. \<forall>pg\<in>{''Forwards'', ''Backs''}.
      unit_rows even_table ''Georgia'' s pg = [] \<longleftrightarrow> unit_rows even_table ''Portugal'' s pg = []"
    by (simp add: u)
  have el: "dict_get WR_ELO ''Georgia'' 75 = dict_get WR_ELO ''Portugal'' 75"
    by (simp add: unlisted_elo)
  show ?thesis
    by (intro conjI ne st sm el equal_squads_margin[OF ne sk same el])
qed




section \<open>The win probability\<close>

text \<open>Two squads of one skill with the same units populated and equal ELO ratings: the
  final margin is the home advantage, for every parameter set with a non-negative
  threshold.\<close>

lemma equal_squads_margin_is_home_advantage:
  assumes ne: "team_rows df hm \<noteq> []" "team_rows df aw \<noteq> []"
      and sk: "\<forall>r\<in>set (team_rows df hm) \<union> set (team_rows df aw). skill r = c"
      and same: "\<forall>s\<in>{0, 1}. \<forall>pg\<in>{''Forwards'', ''Backs''}.
                   unit_rows df hm s pg = [] \<longleftrightarrow> unit_rows df aw s pg = []"
      and elo_eq: "dict_get WR_ELO hm 75 = dict_get WR_ELO aw 75"
      and thr: "0 \<le> MISMATCH_THRESHOLD params"
      and sd: "STD_DEV params \<noteq> 0"
  shows "\<exists>p. simulate_match hm aw df params = Inr (Prediction p)
           \<and> margin p = HOME_ADVANTAGE params"
proof -
  have uv: "unit_value df hm s pg c = unit_value df aw s pg c"
    if "s \<in> {0, 1}" "pg \<in> {''Forwards'', ''Backs''}" for s pg
    using same that by (auto simp: unit_value_def)
  obtain h where h: "get_tactical_metrics df hm params = Inr (Some h)"
    using get_tactical_metrics_Some_iff[of df hm params] ne(1) by auto
  obtain a where a: "get_tactical_metrics df aw params = Inr (Some a)"
    using get_tactical_metrics_Some_iff[of df aw params] ne(2) by auto
  have "h = a"
    using get_tactical_metrics_const[OF ne(1), of c params]
      get_tactical_metrics_const[OF ne(2), of c params] sk h a
    by (simp add: uv)
  with simulate_match_prediction[OF h a sd] obtain p where
    p: "simulate_match hm aw df params = Inr (Prediction p)"
       "pack_diff (debug p) = 0"
       "tactical (debug p)
               = (if pack_diff (debug p) > MISMATCH_THRESHOLD params then MISMATCH_BONUS params
                  else if pack_diff (debug p) < - MISMATCH_THRESHOLD params
                  then - MISMATCH_BONUS params
                  else 0)"
       "elo (debug p) = (dict_get WR_ELO hm 75 - dict_get WR_ELO aw 75) * ELO_SCALING params"
       "margin p = tactical (debug p) * WEIGHT_MODEL_TACTICAL params
                          + elo (debug p) * WEIGHT_MODEL_ELO params + HOME_ADVANTAGE params"
    by auto
  have t0: "tactical (debug p) = 0"
    using thr by (simp add: p(3) p(2))
  have e0: "elo (debug p) = 0"
    by (simp add: p(4) elo_eq)
  have "margin p = HOME_ADVANTAGE params"
    by (simp add: p(5) t0 e0)
  with p(1) show ?thesis by blast
qed

lemma even_table_margin:
  assumes "0 \<le> MISMATCH_THRESHOLD params" "STD_DEV params \<noteq> 0"
  shows "\<exists>p. simulate_match ''Georgia'' ''Portugal'' even_table params = Inr (Prediction p)
           \<and> margin p = HOME_ADVANTAGE params"
proof -
  have ne: "team_rows even_table ''Georgia'' \<noteq> []" "team_rows even_table ''Portugal'' \<noteq> []"
    by (simp_all add: even_team_rows squad_of_def)
  have sk: "\<forall>r\<in>set (team_rows even_table ''Georgia'') \<union> set (team_rows even_table ''Portugal'').
      skill r = 75"
    unfolding even_team_rows by (blast intro: skill_squad_of)
  have u: "unit_rows even_table ''Georgia'' 0 ''Forwards'' \<noteq> []"
    "unit_rows even_table ''Georgia'' 0 ''Backs'' \<noteq> []"
    "unit_rows even_table ''Georgia'' 1 ''Forwards'' \<noteq> []"
    "unit_rows even_table ''Georgia'' 1 ''Backs'' \<noteq> []"
    "unit_rows even_table ''Portugal'' 0 ''Forwards'' \<noteq> []"
    "unit_rows even_table ''Portugal'' 0 ''Backs'' \<noteq> []"
    "unit_rows even_table ''Portugal'' 1 ''Forwards'' \<noteq> []"
    "unit_rows even_table ''Portugal'' 1 ''Backs'' \<noteq> []"
    by (simp_all add: unit_rows_def even_team_rows squad_of_def infer_position_group_def)
  have same: "\<forall>s\<in>{0, 1}. \<forall>pg\<in>{''Forwards'', ''Backs''}.
      unit_rows even_table ''Georgia'' s pg = [] \<longleftrightarrow> unit_rows even_table ''Portugal'' s pg = []"
    by (simp add: u)
  have el: "dict_get WR_ELO ''Georgia'' 75 = dict_get WR_ELO ''Portugal'' 75"
    by (simp add: unlisted_elo)
  show ?thesis
    by (rule equal_squads_margin_is_home_advantage[OF ne sk same el assms])
qed

text \<open>
  Claim C1, as stated: the home win probability equals \<open>0.5\<close> exactly when the final margin
  is \<open>0\<close>. In the double arithmetic of the program the probability is \<open>0.5\<close> also at small
  non-zero margins. With the home advantage set to the double nearest to \<open>10 ^ -18\<close> and two
  level squads of equal ELO, the final margin is that home advantage (the other two terms
  of the sum are zero, so this holds in doubles too), it is not \<open>0\<close>, and the probability
  computed from it with the default \<open>STD_DEV\<close> is exactly \<open>0.5\<close>: the value of \<open>erf\<close> is below
  half a unit in the last place of \<open>1\<close> and is lost in \<open>1 + erf(...)\<close>.
\<close>

theorem win_probability_half_counterexample:
  "result_margin (simulate_match ''Georgia'' ''Portugal'' even_table
       (DEFAULT_CONFIG\<lparr>HOME_ADVANTAGE := round_double (1 / 10 ^ 18)\<rparr>))
     = Some (round_double (1 / 10 ^ 18))
   \<and> round_double (1 / 10 ^ 18) \<noteq> 0
   \<and> 0 < STD_DEV (DEFAULT_CONFIG\<lparr>HOME_ADVANTAGE := round_double (1 / 10 ^ 18)\<rparr>)
   \<and> win_probability_double (round_double (1 / 10 ^ 18))
         (STD_DEV (DEFAULT_CONFIG\<lparr>HOME_ADVANTAGE := round_double (1 / 10 ^ 18)\<rparr>)) = 0.5"
proof -
  let ?m = "round_double (1 / 10 ^ 18)"
  let ?c = "DEFAULT_CONFIG\<lparr>HOME_ADVANTAGE := ?m\<rparr>"
  have c: "0 \<le> MISMATCH_THRESHOLD ?c" "STD_DEV ?c \<noteq> 0" "0 < STD_DEV ?c" "HOME_ADVANTAGE ?c = ?m"
    by (simp_all add: DEFAULT_CONFIG_fields)
  from even_table_margin[OF c(1,2)] c(4)
  have r: "result_margin (simulate_match ''Georgia'' ''Portugal'' even_table ?c) = Some ?m"
    by (auto simp: result_margin_def)
  have m: "0 < ?m" "?m \<le> 2 / 10 ^ 18"
    using round_double_pos[of "1 / 10 ^ 18"] by simp_all
  have "win_probability_double ?m (27 / 2) = 1 / 2"
    by (rule win_probability_double_tiny[OF m]) simp
  then have w: "win_probability_double ?m (STD_DEV ?c) = 0.5"
    by (simp add: DEFAULT_CONFIG_fields)
  from m(1) have nz: "?m \<noteq> 0" by simp
  show ?thesis
    by (intro conjI r nz c(3) w)
qed

text \<open>
  Claim C1, amended. For every pair of team profiles and every parameter set with
  \<open>STD_DEV > 0\<close>, \<open>simulate_match\<close> returns a prediction whose home win probability is
  \<open>0.5 * (1 + erf (z / sqrt 2))\<close> with \<open>z = final_margin / STD_DEV\<close>, that is the standard
  normal distribution function at \<open>z\<close> (see \<open>std_normal_cdf_is_distribution\<close>); it lies in
  \<open>[0, 1]\<close> and equals \<open>0.5\<close> when the final margin is \<open>0\<close>. The bounds and the value at
  margin \<open>0\<close> hold for the probability computed in double arithmetic as well.
\<close>

theorem simulate_match_win_probability:
  assumes sd: "0 < STD_DEV params"
      and h: "get_tactical_metrics df hm params = Inr (Some h)"
      and a: "get_tactical_metrics df aw params = Inr (Some a)"
  shows "\<exists>p. simulate_match hm aw df params = Inr (Prediction p)
           \<and> prob p = 0.5 * (1 + erf (margin p / STD_DEV params / sqrt 2))
           \<and> prob p = std_normal_cdf (margin p / STD_DEV params)
           \<and> 0 \<le> prob p \<and> prob p \<le> 1
           \<and> (margin p = 0 \<longrightarrow> prob p = 0.5)
           \<and> 0 \<le> win_probability_double (margin p) (STD_DEV params)
           \<and> win_probability_double (margin p) (STD_DEV params) \<le> 1
           \<and> (margin p = 0 \<longrightarrow> win_probability_double (margin p) (STD_DEV params) = 0.5)"
proof -
  from sd have sd0: "STD_DEV params \<noteq> 0" by simp
  from simulate_match_prediction[OF h a sd0] obtain p where
    p: "simulate_match hm aw df params = Inr (Prediction p)"
       "prob p = 0.5 * (1 + erf (margin p / STD_DEV params / sqrt 2))"
    by blast
  have cdf: "prob p = std_normal_cdf (margin p / STD_DEV params)"
    by (simp add: p(2) std_normal_cdf_def)
  have b: "0 \<le> prob p" "prob p \<le> 1"
    using std_normal_cdf_bounds[of "margin p / STD_DEV params"] by (simp_all add: cdf)
  have "std_normal_cdf 0 = 1 / 2"
    using std_normal_cdf_half_iff[of 0] by simp
  then have z: "margin p = 0 \<longrightarrow> prob p = 0.5"
    by (simp add: cdf)
  have d: "margin p = 0 \<longrightarrow> win_probability_double (margin p) (STD_DEV params) = 0.5"
    by (simp add: win_probability_double_zero)
  show ?thesis
    by (intro exI[of _ p] conjI p cdf b z d win_probability_double_bounds)
qed

text \<open>The hypotheses hold for France against Ireland on a small table under the default
  configuration, and for two level squads of equal ELO without home advantage, where the
  final margin is \<open>0\<close> and the probability \<open>0.5\<close>.\<close>

theorem simulate_match_win_probability_witness:
  "0 < STD_DEV DEFAULT_CONFIG
   \<and> (\<exists>p. simulate_match ''France'' ''Ireland'' (pack_table 80 70) DEFAULT_CONFIG = Inr (Prediction p)
           \<and> prob p = std_normal_cdf (margin p / STD_DEV DEFAULT_CONFIG)
           \<and> 0 \<le> prob p \<and> prob p \<le> 1)
   \<and> 0 < STD_DEV (DEFAULT_CONFIG\<lparr>HOME_ADVANTAGE := 0\<rparr>)
   \<and> (\<exists>p. simulate_match ''Georgia'' ''Portugal'' even_table (DEFAULT_CONFIG\<lparr>HOME_ADVANTAGE := 0\<rparr>)
             = Inr (Prediction p)
           \<and> margin p = 0 \<and> prob p = 0.5
           \<and> win_probability_double (margin p) (STD_DEV (DEFAULT_CONFIG\<lparr>HOME_ADVANTAGE := 0\<rparr>)) = 0.5)"
proof -
  let ?c = "DEFAULT_CONFIG\<lparr>HOME_ADVANTAGE := 0\<rparr>"
  have sd: "0 < STD_DEV DEFAULT_CONFIG" by (simp add: DEFAULT_CONFIG_fields)
  have c: "0 \<le> MISMATCH_THRESHOLD ?c" "STD_DEV ?c \<noteq> 0" "0 < STD_DEV ?c" "HOME_ADVANTAGE ?c = 0"
    by (simp_all add: DEFAULT_CONFIG_fields)
  have first: "\<exists>p. simulate_match ''France'' ''Ireland'' (pack_table 80 70) DEFAULT_CONFIG
             = Inr (Prediction p)
           \<and> prob p = std_normal_cdf (margin p / STD_DEV DEFAULT_CONFIG)
           \<and> 0 \<le> prob p \<and> prob p \<le> 1"
    using simulate_match_win_probability[OF sd pack_table_metrics(1)[of 80 70]
        pack_table_metrics(2)[of 80 70]]
    by blast
  from even_table_margin[OF c(1,2)] c(4) obtain q where
    q: "simulate_match ''Georgia'' ''Portugal'' even_table ?c = Inr (Prediction q)" "margin q = 0"
    by auto
  obtain h a where m: "get_tactical_metrics even_table ''Georgia'' ?c = Inr (Some h)"
      "get_tactical_metrics even_table ''Portugal'' ?c = Inr (Some a)"
    using get_tactical_metrics_Some_iff[of even_table "''Georgia''" ?c]
      get_tactical_metrics_Some_iff[of even_table "''Portugal''" ?c]
    by (auto simp: even_team_rows squad_of_def)
  have second: "\<exists>p. simulate_match ''Georgia'' ''Portugal'' even_table ?c = Inr (Prediction p)
           \<and> margin p = 0 \<and> prob p = 0.5
           \<and> win_probability_double (margin p) (STD_DEV ?c) = 0.5"
    using simulate_match_win_probability[OF c(3) m] q by auto
  show ?thesis
    by (intro conjI sd first c(3) second)
qed


section \<open>Claims on the identity resolver\<close>

lemma match_player_data_unfold:
  "match_player_data q cntry db =
    (if filter (\<lambda>r. normalize_name (name r) = normalize_name q) (country_db cntry db) \<noteq> []
     then Some (hd (filter (\<lambda>r. normalize_name (name r) = normalize_name q) (country_db cntry db)))
     else List.find (name_contains (normalize_name q)) (country_db cntry db))"
  by (simp add: match_player_data_def country_db_def Let_def)

lemma hd_filter_first:
  assumes "filter P xs \<noteq> []"
  shows "\<exists>i<length xs. hd (filter P xs) = xs ! i \<and> P (xs ! i) \<and> (\<forall>j<i. \<not> P (xs ! j))"
  using assms
proof (induction xs)
  case Nil
  then show ?case by simp
next
  case (Cons x xs)
  show ?case
  proof (cases "P x")
    case True
    then show ?thesis by (intro exI[of _ 0]) simp
  next
    case False
    with Cons.prems have "filter P xs \<noteq> []" by simp
    from Cons.IH[OF this] obtain i where
      i: "i < length xs" "hd (filter P xs) = xs ! i" "P (xs ! i)" "\<forall>j<i. \<not> P (xs ! j)"
      by blast
    have "\<forall>j<Suc i. \<not> P ((x # xs) ! j)"
      using False i(4) by (auto simp: less_Suc_eq_0_disj)
    with i False show ?thesis
      by (intro exI[of _ "Suc i"]) simp
  qed
qed

text \<open>
  Claim C4. \<open>match_player_data\<close> only returns records of the queried country (countries
  compared in lower case). If some candidate has the query's normalized name, the result is
  the first such candidate in table order, whether or not an earlier candidate contains or
  is contained in the query. Only if no candidate matches exactly is the result the first
  candidate in table order whose normalized name contains the normalized query or is
  contained in it, and \<open>None\<close> if there is no such candidate.
\<close>

theorem match_player_data_exact_then_first_containment:
  "(\<forall>r. match_player_data q cntry db = Some r
        \<longrightarrow> r \<in> set db \<and> lower (country r) = lower cntry)
   \<and> ((\<exists>r\<in>set (country_db cntry db). normalize_name (name r) = normalize_name q)
        \<longrightarrow> (\<exists>i<length (country_db cntry db).
               match_player_data q cntry db = Some (country_db cntry db ! i)
               \<and> normalize_name (name (country_db cntry db ! i)) = normalize_name q
               \<and> (\<forall>j<i. normalize_name (name (country_db cntry db ! j)) \<noteq> normalize_name q)))
   \<and> ((\<forall>r\<in>set (country_db cntry db). normalize_name (name r) \<noteq> normalize_name q)
        \<longrightarrow> (match_player_data q cntry db = None
               \<and> (\<forall>r\<in>set (country_db cntry db). \<not> name_contains (normalize_name q) r))
            \<or> (\<exists>i<length (country_db cntry db).
               match_player_data q cntry db = Some (country_db cntry db ! i)
               \<and> name_contains (normalize_name q) (country_db cntry db ! i)
               \<and> (\<forall>j<i. \<not> name_contains (normalize_name q) (country_db cntry db ! j))))"
proof -
  let ?P = "\<lambda>r. normalize_name (name r) = normalize_name q"
  let ?C = "country_db cntry db"
  have A: "\<forall>r. match_player_data q cntry db = Some r
        \<longrightarrow> r \<in> set db \<and> lower (country r) = lower cntry"
  proof (intro allI impI)
    fix r assume r: "match_player_data q cntry db = Some r"
    have "r \<in> set ?C"
    proof (cases "filter ?P ?C = []")
      case True
      with r have "List.find (name_contains (normalize_name q)) ?C = Some r"
        by (simp add: match_player_data_unfold)
      then show ?thesis by (auto simp: find_Some_iff)
    next
      case False
      with r have "r = hd (filter ?P ?C)"
        by (simp add: match_player_data_unfold)
      with hd_in_set[OF False] have "r \<in> set (filter ?P ?C)"
        by blast
      then show ?thesis by simp
    qed
    then show "r \<in> set db \<and> lower (country r) = lower cntry"
      by (simp add: country_db_def)
  qed
  have B: "(\<exists>r\<in>set ?C. normalize_name (name r) = normalize_name q)
        \<longrightarrow> (\<exists>i<length ?C.
               match_player_data q cntry db = Some (?C ! i)
               \<and> normalize_name (name (?C ! i)) = normalize_name q
               \<and> (\<forall>j<i. normalize_name (name (?C ! j)) \<noteq> normalize_name q))"
  proof
    assume "\<exists>r\<in>set ?C. ?P r"
    then have ne: "filter ?P ?C \<noteq> []"
      by (simp add: filter_empty_conv)
    from hd_filter_first[OF ne] obtain i where
      "i < length ?C" "hd (filter ?P ?C) = ?C ! i" "?P (?C ! i)" "\<forall>j<i. \<not> ?P (?C ! j)"
      by blast
    with ne show "\<exists>i<length ?C.
               match_player_data q cntry db = Some (?C ! i)
               \<and> normalize_name (name (?C ! i)) = normalize_name q
               \<and> (\<forall>j<i. normalize_name (name (?C ! j)) \<noteq> normalize_name q)"
      by (auto simp: match_player_data_unfold)
  qed
  have C: "(\<forall>r\<in>set ?C. normalize_name (name r) \<noteq> normalize_name q)
        \<longrightarrow> (match_player_data q cntry db = None
               \<and> (\<forall>r\<in>set ?C. \<not> name_contains (normalize_name q) r))
            \<or> (\<exists>i<length ?C.
               match_player_data q cntry db = Some (?C ! i)
               \<and> name_contains (normalize_name q) (?C ! i)
               \<and> (\<forall>j<i. \<not> name_contains (normalize_name q) (?C ! j)))"
  proof
    assume "\<forall>r\<in>set ?C. normalize_name (name r) \<noteq> normalize_name q"
    then have e: "filter ?P ?C = []"
      by (simp add: filter_empty_conv)
    then have m: "match_player_data q cntry db
        = List.find (name_contains (normalize_name q)) ?C"
      by (simp add: match_player_data_unfold)
    show "(match_player_data q cntry db = None
               \<and> (\<forall>r\<in>set ?C. \<not> name_contains (normalize_name q) r))
            \<or> (\<exists>i<length ?C.
               match_player_data q cntry db = Some (?C ! i)
               \<and> name_contains (normalize_name q) (?C ! i)
               \<and> (\<forall>j<i. \<not> name_contains (normalize_name q) (?C ! j)))"
    proof (cases "List.find (name_contains (normalize_name q)) ?C")
      case None
      then show ?thesis by (auto simp: m find_None_iff)
    next
      case (Some r)
      then show ?thesis unfolding m by (auto simp: find_Some_iff)
    qed
  qed
  from A B C show ?thesis by (intro conjI)
qed


text \<open>On the example table: "antoine dupont " resolves to the record of that exact name
  although an earlier French record contains it, and "dupont", which no record has as its
  name, resolves to the first French record that contains it.\<close>

theorem match_player_data_exact_then_first_containment_witness:
  "(\<exists>r\<in>set (country_db ''France'' ratings_example).
        normalize_name (name r) = normalize_name (Some ''antoine dupont ''))
   \<and> name_contains (normalize_name (Some ''antoine dupont '')) (country_db ''France'' ratings_example ! 0)
   \<and> match_player_data (Some ''antoine dupont '') ''France'' ratings_example
        = Some (country_db ''France'' ratings_example ! 1)
   \<and> filter (\<lambda>r. normalize_name (name r) = normalize_name (Some ''dupont''))
        (country_db ''France'' ratings_example) = []
   \<and> match_player_data (Some ''dupont'') ''France'' ratings_example
        = Some (country_db ''France'' ratings_example ! 0)"
proof -
  have e1: "\<exists>r\<in>set (country_db ''France'' ratings_example).
        normalize_name (name r) = normalize_name (Some ''antoine dupont '')"
    by code_simp
  have e2: "name_contains (normalize_name (Some ''antoine dupont ''))
        (country_db ''France'' ratings_example ! 0)"
    by code_simp
  have e3: "match_player_data (Some ''antoine dupont '') ''France'' ratings_example
        = Some (country_db ''France'' ratings_example ! 1)"
    by code_simp
  have e4: "filter (\<lambda>r. normalize_name (name r) = normalize_name (Some ''dupont''))
        (country_db ''France'' ratings_example) = []"
    by code_simp
  have e5: "match_player_data (Some ''dupont'') ''France'' ratings_example
        = Some (country_db ''France'' ratings_example ! 0)"
    by code_simp
  show ?thesis
    using match_player_data_exact_then_first_containment[of "Some ''antoine dupont ''" "''France''"
        ratings_example]
      match_player_data_exact_then_first_containment[of "Some ''dupont''" "''France''"
        ratings_example]
    by (intro conjI e1 e2 e3 e4 e5)
qed


lemma name_contains_Nil: "name_contains [] r"
  by (simp add: name_contains_def)

text \<open>
  Claim C10, as stated: for a team with at least one rating record, a query whose
  normalized name is empty resolves, through the containment pass, to the first record of
  the country in table order. It fails when a record of the country has itself an empty
  normalized name (an empty name cell): the exact pass then returns that record, which
  need not be the first. Here the query of two blanks resolves to the second French
  record.
\<close>

theorem blank_query_first_record_counterexample:
  "country_db ''France'' ratings_blank = ratings_blank
   \<and> normalize_name (Some ''  '') = []
   \<and> match_player_data (Some ''  '') ''France'' ratings_blank = Some (ratings_blank ! 1)
   \<and> hd (country_db ''France'' ratings_blank) = ratings_blank ! 0
   \<and> ratings_blank ! 1 \<noteq> ratings_blank ! 0"
  by code_simp

text \<open>
  Claim C10, amended. For every team with at least one rating record, a query whose
  normalized name is empty is never unresolved: \<open>match_player_data\<close> returns the first
  record of the country whose own normalized name is empty if there is one (exact pass),
  and otherwise the first record of the country in table order (containment pass, the
  empty string being contained in every name).
\<close>

theorem blank_query_resolved:
  assumes blank: "normalize_name q = []"
      and ne: "country_db cntry db \<noteq> []"
  shows "match_player_data q cntry db \<noteq> None
     \<and> (filter (\<lambda>r. normalize_name (name r) = []) (country_db cntry db) = []
          \<longrightarrow> match_player_data q cntry db = Some (hd (country_db cntry db)))
     \<and> (filter (\<lambda>r. normalize_name (name r) = []) (country_db cntry db) \<noteq> []
          \<longrightarrow> match_player_data q cntry db
              = Some (hd (filter (\<lambda>r. normalize_name (name r) = []) (country_db cntry db))))"
proof -
  have "List.find (name_contains []) (country_db cntry db) = Some (hd (country_db cntry db))"
    using ne by (cases "country_db cntry db") (simp_all add: name_contains_Nil)
  then show ?thesis
    by (simp add: match_player_data_unfold blank)
qed

text \<open>On the example table no French record has an empty name, and the query of three
  blanks resolves to the first French record; on the table with an empty name cell it
  resolves to the record with that cell.\<close>

theorem blank_query_resolved_witness:
  "normalize_name (Some ''   '') = []
   \<and> country_db ''France'' ratings_example \<noteq> []
   \<and> filter (\<lambda>r. normalize_name (name r) = []) (country_db ''France'' ratings_example) = []
   \<and> match_player_data (Some ''   '') ''France'' ratings_example = Some (ratings_example ! 0)
   \<and> country_db ''France'' ratings_blank \<noteq> []
   \<and> filter (\<lambda>r. normalize_name (name r) = []) (country_db ''France'' ratings_blank) \<noteq> []
   \<and> match_player_data (Some ''   '') ''France'' ratings_blank = Some (ratings_blank ! 1)"
proof -
  have b: "normalize_name (Some ''   '') = []"
    by code_simp
  have n1: "country_db ''France'' ratings_example \<noteq> []"
    by code_simp
  have f1: "filter (\<lambda>r. normalize_name (name r) = []) (country_db ''France'' ratings_example) = []"
    by code_simp
  have h1: "hd (country_db ''France'' ratings_example) = ratings_example ! 0"
    by code_simp
  have n2: "country_db ''France'' ratings_blank \<noteq> []"
    by code_simp
  have f2: "filter (\<lambda>r. normalize_name (name r) = []) (country_db ''France'' ratings_blank)
      = [ratings_blank ! 1]"
    by code_simp
  have m1: "match_player_data (Some ''   '') ''France'' ratings_example = Some (ratings_example ! 0)"
    using blank_query_resolved[OF b n1] by (simp add: f1 h1)
  have m2: "match_player_data (Some ''   '') ''France'' ratings_blank = Some (ratings_blank ! 1)"
    using blank_query_resolved[OF b n2] by (simp add: f2)
  show ?thesis
    using f2 by (intro conjI b n1 f1 m1 n2 m2) simp
qed

section \<open>Claims on the lineup resolution\<close>

lemma process_rows_team1:
  assumes "row \<in> set df_match" "Number row = Some j" "team1_cell row = Some player"
  shows "resolve_player team1 fb1 df_db j player
           \<in> set (process_rows team1 team2 fb1 fb2 df_db df_match)"
  using assms by (induction df_match) (auto split: option.splits)

lemma process_rows_team2:
  assumes "row \<in> set df_match" "Number row = Some j" "team2_cell row = Some player"
  shows "resolve_player team2 fb2 df_db j player
           \<in> set (process_rows team1 team2 fb1 fb2 df_db df_match)"
  using assms by (induction df_match) (auto split: option.splits)

lemma get_country_fallback_skill_unfold:
  "get_country_fallback_skill cntry db =
     (if country_db cntry db = [] then 70 else quantile (map skill (country_db cntry db)) 0.25)"
  by (simp add: get_country_fallback_skill_def country_db_def Let_def)

lemma infer_position_group_iff:
  "infer_position_group j = ''Forwards'' \<longleftrightarrow> j \<in> {1..8} \<union> {16..20}"
  "infer_position_group j = ''Backs'' \<longleftrightarrow> j \<notin> {1..8} \<union> {16..20}"
  by (auto simp: infer_position_group_def)

text \<open>The 25th percentile lies between two neighbouring order statistics of the column:
  those at positions \<open>(n - 1) div 4\<close> and the next.\<close>

lemma quantile_quarter_between:
  assumes "xs \<noteq> []"
  shows "sort xs ! ((length xs - 1) div 4) \<le> quantile xs 0.25
       \<and> quantile xs 0.25 \<le> sort xs ! min (Suc ((length xs - 1) div 4)) (length xs - 1)"
proof -
  define n where "n = length xs"
  define i where "i = (n - 1) div 4"
  define h where "h = real (n - 1) * 0.25"
  have h4: "h = real (n - 1) / real 4" by (simp add: h_def)
  have fl: "nat \<lfloor>h\<rfloor> = i"
    unfolding h4 i_def by (simp only: floor_divide_of_nat_eq nat_int)
  have lo: "real i \<le> h"
    using of_int_floor_le[of h] fl
    by (metis floor_divide_of_nat_eq h4 i_def of_int_of_nat_eq)
  have hi: "h < real i + 1"
    using floor_correct[of h] fl
    by (metis floor_divide_of_nat_eq h4 i_def of_int_of_nat_eq of_int_add of_int_1)
  have q: "quantile xs 0.25 =
      (if Suc i < n then sort xs ! i + (sort xs ! Suc i - sort xs ! i) * (h - real i) else sort xs ! i)"
    unfolding quantile_def Let_def length_sort n_def[symmetric] h_def[symmetric] fl
    by (rule refl)
  show ?thesis
  proof (cases "Suc i < n")
    case True
    have "sort xs ! i \<le> sort xs ! Suc i"
      using True by (intro sorted_nth_mono) (simp_all add: n_def)
    then have d: "0 \<le> sort xs ! Suc i - sort xs ! i" by simp
    have "0 \<le> (sort xs ! Suc i - sort xs ! i) * (h - real i)"
      using d lo by (intro mult_nonneg_nonneg) simp_all
    moreover have "(sort xs ! Suc i - sort xs ! i) * (h - real i) \<le> (sort xs ! Suc i - sort xs ! i) * 1"
      using d hi by (intro mult_left_mono) simp_all
    moreover have "min (Suc i) (n - 1) = Suc i" using True by simp
    ultimately show ?thesis
      unfolding n_def[symmetric] i_def[symmetric] q using True by simp
  next
    case False
    have "i \<le> n - 1" by (simp add: i_def)
    moreover have "0 < n" using assms by (simp add: n_def)
    ultimately have "min (Suc i) (n - 1) = i" using False by simp
    then show ?thesis
      unfolding n_def[symmetric] i_def[symmetric] q using False by simp
  qed
qed

lemma rows_build_match_squad:
  "rows (build_match_squad team1 team2 df_db df_match)
     = process_rows team1 team2 (get_country_fallback_skill team1 df_db)
         (get_country_fallback_skill team2 df_db) df_db df_match"
  by (simp add: build_match_squad_def Let_def)

text \<open>
  Claim C5. For every lineup entry whose name matches no rating record, the resolved
  player that \<open>load_match_squads\<close> puts into the squad table has, as skill, the 25th
  percentile of the skills of the team's rating records, or exactly \<open>70\<close> when the team has
  no record at all, and as position group \<open>Forwards\<close> if and only if the shirt number is in
  \<open>{1..8} \<union> {16..20}\<close>, otherwise \<open>Backs\<close>.
\<close>

theorem unresolved_player_imputed:
  assumes row: "row \<in> set df_match"
      and num: "Number row = Some j"
      and cell: "(team = team1 \<and> team1_cell row = Some player)
                 \<or> (team = team2 \<and> team2_cell row = Some player)"
      and unmatched: "match_player_data (Some player) team df_db = None"
  shows "\<exists>r\<in>set (rows (build_match_squad team1 team2 df_db df_match)).
           country r = team \<and> name r = Some player \<and> shirt_number r = j
           \<and> skill r = (if country_db team df_db = [] then 70
                         else quantile (map skill (country_db team df_db)) 0.25)
           \<and> (position_group r = ''Forwards'' \<longleftrightarrow> j \<in> {1..8} \<union> {16..20})
           \<and> (position_group r = ''Backs'' \<longleftrightarrow> j \<notin> {1..8} \<union> {16..20})"
proof -
  let ?r = "resolve_player team (get_country_fallback_skill team df_db) df_db j player"
  have mem: "?r \<in> set (rows (build_match_squad team1 team2 df_db df_match))"
    using cell process_rows_team1[OF row num] process_rows_team2[OF row num]
    by (auto simp: rows_build_match_squad)
  have r: "?r = \<lparr>country = team, name = Some player,
             position_group = infer_position_group j,
             skill = get_country_fallback_skill team df_db,
             starting = (if j \<le> 15 then 1 else 0), shirt_number = j\<rparr>"
    by (simp add: resolve_player_def unmatched Let_def)
  have "country ?r = team \<and> name ?r = Some player \<and> shirt_number ?r = j
           \<and> skill ?r = (if country_db team df_db = [] then 70
                         else quantile (map skill (country_db team df_db)) 0.25)
           \<and> (position_group ?r = ''Forwards'' \<longleftrightarrow> j \<in> {1..8} \<union> {16..20})
           \<and> (position_group ?r = ''Backs'' \<longleftrightarrow> j \<notin> {1..8} \<union> {16..20})"
    unfolding r by (simp add: get_country_fallback_skill_unfold infer_position_group_iff)
  with mem show ?thesis by blast
qed


lemma ratings_example_france:
  "country_db ''France'' ratings_example
     = [ratings_example ! 0, ratings_example ! 1, ratings_example ! 3, ratings_example ! 4]"
  by code_simp

text \<open>On the example tables: "Zinedine Zidane" at number 4 for France is unresolved and
  gets the French 25th percentile \<open>65\<close> as a forward; "Michel Platini" at number 21 gets it as
  a back; "Gareth Bale" for Wales, which has no record, gets \<open>70\<close>.\<close>

theorem unresolved_player_imputed_witness:
  "match_player_data (Some ''Zinedine Zidane'') ''France'' ratings_example = None
   \<and> match_player_data (Some ''Michel Platini'') ''France'' ratings_example = None
   \<and> match_player_data (Some ''Gareth Bale'') ''Wales'' ratings_example = None
   \<and> country_db ''Wales'' ratings_example = []
   \<and> map skill (country_db ''France'' ratings_example) = [70, 92, 88, 50]
   \<and> quantile [70, 92, 88, 50] 0.25 = 65
   \<and> (\<exists>r\<in>set (rows (build_match_squad ''France'' ''Wales'' ratings_example lineup_example)).
         country r = ''France'' \<and> name r = Some ''Zinedine Zidane'' \<and> shirt_number r = 4
         \<and> skill r = 65 \<and> position_group r = ''Forwards'')
   \<and> (\<exists>r\<in>set (rows (build_match_squad ''France'' ''Wales'' ratings_example lineup_example)).
         country r = ''France'' \<and> name r = Some ''Michel Platini'' \<and> shirt_number r = 21
         \<and> skill r = 65 \<and> position_group r = ''Backs'')
   \<and> (\<exists>r\<in>set (rows (build_match_squad ''France'' ''Wales'' ratings_example lineup_example)).
         country r = ''Wales'' \<and> name r = Some ''Gareth Bale'' \<and> shirt_number r = 4
         \<and> skill r = 70 \<and> position_group r = ''Forwards'')"
proof -
  have u1: "match_player_data (Some ''Zinedine Zidane'') ''France'' ratings_example = None"
    and u2: "match_player_data (Some ''Michel Platini'') ''France'' ratings_example = None"
    and u3: "match_player_data (Some ''Gareth Bale'') ''Wales'' ratings_example = None"
    and w: "country_db ''Wales'' ratings_example = []"
    by code_simp+
  have f: "map skill (country_db ''France'' ratings_example) = [70, 92, 88, 50]"
    by (simp add: ratings_example_france) (simp add: ratings_example_def)
  have q: "quantile [70, 92, 88, 50] 0.25 = 65"
    by (simp add: quantile_def)
  have q4: "quantile [70, 92, 88, 50] (1 / 4) = 65"
    using q by simp
  have fne: "country_db ''France'' ratings_example \<noteq> []"
    by (simp add: ratings_example_france)
  let ?r0 = "\<lparr>Number = Some 4, team1_cell = Some ''Zinedine Zidane'', team2_cell = Some ''Gareth Bale''\<rparr>"
  let ?r2 = "\<lparr>Number = Some 21, team1_cell = Some ''Michel Platini'', team2_cell = None\<rparr>"
  have m0: "?r0 \<in> set lineup_example" and m2: "?r2 \<in> set lineup_example"
    by (simp_all add: lineup_example_def)
  have a: "\<exists>r\<in>set (rows (build_match_squad ''France'' ''Wales'' ratings_example lineup_example)).
         country r = ''France'' \<and> name r = Some ''Zinedine Zidane'' \<and> shirt_number r = 4
         \<and> skill r = 65 \<and> position_group r = ''Forwards''"
    using unresolved_player_imputed[OF m0, of 4 "''France''" "''France''" "''Zinedine Zidane''"
        "''Wales''" ratings_example] u1
    by (auto simp: f q4 fne)
  have b: "\<exists>r\<in>set (rows (build_match_squad ''France'' ''Wales'' ratings_example lineup_example)).
         country r = ''France'' \<and> name r = Some ''Michel Platini'' \<and> shirt_number r = 21
         \<and> skill r = 65 \<and> position_group r = ''Backs''"
    using unresolved_player_imputed[OF m2, of 21 "''France''" "''France''" "''Michel Platini''"
        "''Wales''" ratings_example] u2
    by (auto simp: f q4 fne)
  have c: "\<exists>r\<in>set (rows (build_match_squad ''France'' ''Wales'' ratings_example lineup_example)).
         country r = ''Wales'' \<and> name r = Some ''Gareth Bale'' \<and> shirt_number r = 4
         \<and> skill r = 70 \<and> position_group r = ''Forwards''"
    using unresolved_player_imputed[OF m0, of 4 "''Wales''" "''France''" "''Gareth Bale''"
        "''Wales''" ratings_example] u3
    by (auto simp: w)
  show ?thesis
    by (intro conjI u1 u2 u3 w f q a b c)
qed

section \<open>Claims on the calibrator\<close>

lemma simulate_match_returns:
  assumes "STD_DEV params \<noteq> 0" "df \<noteq> NoColumns"
  shows "\<exists>res. simulate_match hm aw df params = Inr res"
proof (cases "team_rows df hm = [] \<or> team_rows df aw = []")
  case True
  from simulate_match_missing[OF assms(2) this] show ?thesis by simp
next
  case False
  then show ?thesis
    using sparse_team_is_predicted[of df hm aw params] assms(1) by auto
qed

lemma collect_predictions_load_raises:
  assumes "m \<in> set ms" "load (match_file m) = Inl exc"
  shows "collect_predictions load config ms = None"
  using assms by (induction ms) (auto split: sum.splits option.splits)

lemma collect_predictions_Some:
  assumes "STD_DEV config \<noteq> 0"
    "\<forall>m\<in>set ms. \<exists>df. load (match_file m) = Inr df \<and> df \<noteq> NoColumns"
  shows "\<exists>preds. collect_predictions load config ms = Some preds \<and> length preds = length ms
           \<and> (\<forall>i<length ms. \<forall>df. load (match_file (ms ! i)) = Inr df
                 \<longrightarrow> Inr (preds ! i) = simulate_match (home (ms ! i)) (away (ms ! i)) df config)"
  using assms(2)
proof (induction ms)
  case Nil
  then show ?case by simp
next
  case (Cons m ms)
  from Cons.prems obtain df where df: "load (match_file m) = Inr df" "df \<noteq> NoColumns" by auto
  from simulate_match_returns[OF assms(1) df(2)] obtain res where
    res: "simulate_match (home m) (away m) df config = Inr res" by blast
  from Cons.IH Cons.prems obtain preds where
    p: "collect_predictions load config ms = Some preds" "length preds = length ms"
       "\<forall>i<length ms. \<forall>df. load (match_file (ms ! i)) = Inr df
           \<longrightarrow> Inr (preds ! i) = simulate_match (home (ms ! i)) (away (ms ! i)) df config"
    by auto
  have "\<forall>i<length (m # ms). \<forall>df. load (match_file ((m # ms) ! i)) = Inr df
           \<longrightarrow> Inr ((res # preds) ! i)
               = simulate_match (home ((m # ms) ! i)) (away ((m # ms) ! i)) df config"
    using p(3) df res by (auto simp: nth_Cons split: nat.splits)
  then show ?case
    using df res p(1,2) by (intro exI[of _ "res # preds"]) simp
qed

lemma score_loop_error:
  assumes "length preds = length reals" "i < length preds" "preds ! i = Error msg"
  shows "score_loop preds reals = Inl (KeyError ''margin'')"
  using assms
proof (induction preds reals arbitrary: i rule: score_loop.induct)
  case (1 pred preds rl reals)
  show ?case
  proof (cases pred)
    case (Error x)
    then show ?thesis by simp
  next
    case (Prediction p)
    with "1.prems" obtain j where j: "i = Suc j"
      by (cases i) auto
    with "1.prems" have "score_loop preds reals = Inl (KeyError ''margin'')"
      by (intro "1.IH"[OF refl Prediction refl refl refl, of j]) auto
    then show ?thesis by (simp add: Prediction Let_def)
  qed
qed auto

text \<open>The part of claim C7 that holds: an exception while loading (or predicting) any
  match discards the combination, and the grid search goes on with the next one.\<close>

lemma evaluate_params_discards_on_exception:
  assumes "m \<in> set REAL_RESULTS" "load (match_file m) = Inl exc"
  shows "evaluate_params load tw ha = Inr None"
  using assms collect_predictions_load_raises[of m REAL_RESULTS load exc]
  by (simp add: evaluate_params_def)

lemma grid_loop_skips_discarded:
  assumes "evaluate_params load tw ha = Inr None"
  shows "grid_loop load ((tw, ha) # rest) (results, best) = grid_loop load rest (results, best)"
  using assms by simp

text \<open>The part that fails: when every match loads but the table of some match has no row
  for one of its teams, \<open>simulate_match\<close> returns its error result without raising, the
  \<open>try\<close> block is left normally, and \<open>calculate_metrics\<close> raises \<open>KeyError\<close> on the missing
  \<open>margin\<close> key.\<close>

lemma evaluate_params_raises_on_error_result:
  assumes loads: "\<forall>m\<in>set REAL_RESULTS. \<exists>df. load (match_file m) = Inr df \<and> df \<noteq> NoColumns"
      and lacks: "m \<in> set REAL_RESULTS" "load (match_file m) = Inr df"
                 "team_rows df (home m) = [] \<or> team_rows df (away m) = []"
  shows "evaluate_params load tw ha = Inl (KeyError ''margin'')"
proof -
  let ?c = "DEFAULT_CONFIG\<lparr>WEIGHT_MODEL_TACTICAL := tw, WEIGHT_MODEL_ELO := 1 - tw,
                            HOME_ADVANTAGE := ha\<rparr>"
  have sd: "STD_DEV ?c \<noteq> 0" by (simp add: DEFAULT_CONFIG_fields)
  from collect_predictions_Some[OF sd loads] obtain preds where
    p: "collect_predictions load ?c REAL_RESULTS = Some preds"
       "length preds = length REAL_RESULTS"
       "\<forall>i<length REAL_RESULTS. \<forall>df. load (match_file (REAL_RESULTS ! i)) = Inr df
           \<longrightarrow> Inr (preds ! i)
               = simulate_match (home (REAL_RESULTS ! i)) (away (REAL_RESULTS ! i)) df ?c"
    by blast
  from lacks(1) obtain i where i: "i < length REAL_RESULTS" "REAL_RESULTS ! i = m"
    by (auto simp: in_set_conv_nth)
  from loads lacks(1,2) have col: "df \<noteq> NoColumns" by auto
  from simulate_match_missing[OF col lacks(3)] p(3) i lacks(2)
  have "preds ! i = Error (''Missing data in CSV for '' @ home m @ '' or '' @ away m)"
    by auto
  from score_loop_error[OF p(2) _ this] i p(2)
  have "score_loop preds REAL_RESULTS = Inl (KeyError ''margin'')" by simp
  moreover have "preds \<noteq> []" using p(2) by (auto simp: REAL_RESULTS_def)
  ultimately show ?thesis
    by (simp add: evaluate_params_def p(1) calculate_metrics_def)
qed

lemma blank_away_loader_tables:
  "\<forall>m\<in>set REAL_RESULTS. \<exists>df. blank_away_loader (match_file m) = Inr df \<and> df \<noteq> NoColumns"
  by (simp add: REAL_RESULTS_def blank_away_loader_def build_match_squad_def Let_def)

lemma blank_away_loader_france_ireland:
  "blank_away_loader ''France-Ireland.xlsx''
     = Inr (build_match_squad ''France'' ''Ireland'' ratings_example
             [\<lparr>Number = Some 1, team1_cell = Some ''Loosehead One'', team2_cell = None\<rparr>])"
  by (simp add: REAL_RESULTS_def blank_away_loader_def)

lemma build_match_squad_blank_away:
  "team_rows (build_match_squad ''France'' ''Ireland'' db
       [\<lparr>Number = Some 1, team1_cell = Some p, team2_cell = None\<rparr>]) ''Ireland'' = []"
  by (simp add: rows_build_match_squad team_rows_def resolve_player_def Let_def
      split: option.splits)

text \<open>
  Claim C7 (code defect). The claim, like the docstring of \<open>evaluate_params\<close> ("None if any
  match fails to process"), says that a combination with a failing match is discarded and
  the search continues. With the lineup sheet of France against Ireland missing the names
  of Ireland, the prediction of that match is the error result, \<open>evaluate_params\<close> raises
  \<open>KeyError\<close> instead of returning \<open>None\<close>, and \<open>grid_search\<close> ends with that exception at
  its first combination.
\<close>

theorem evaluate_params_raises_on_missing_team:
  "evaluate_params blank_away_loader 0.5 0 = Inl (KeyError ''margin'')
   \<and> evaluate_params blank_away_loader 0.65 2 = Inl (KeyError ''margin'')
   \<and> grid_search blank_away_loader = Inl (KeyError ''margin'')"
proof -
  have m: "\<lparr>home = ''France'', away = ''Ireland'', home_score = 36, away_score = 14,
            match_file = ''France-Ireland.xlsx''\<rparr> \<in> set REAL_RESULTS"
    by (simp add: REAL_RESULTS_def)
  have l: "blank_away_loader (match_file \<lparr>home = ''France'', away = ''Ireland'', home_score = 36,
            away_score = 14, match_file = ''France-Ireland.xlsx''\<rparr>)
      = Inr (build_match_squad ''France'' ''Ireland'' ratings_example
             [\<lparr>Number = Some 1, team1_cell = Some ''Loosehead One'', team2_cell = None\<rparr>])"
    by (simp add: blank_away_loader_france_ireland)
  have t: "team_rows (build_match_squad ''France'' ''Ireland'' ratings_example
             [\<lparr>Number = Some 1, team1_cell = Some ''Loosehead One'', team2_cell = None\<rparr>])
           (away \<lparr>home = ''France'', away = ''Ireland'', home_score = 36,
            away_score = 14, match_file = ''France-Ireland.xlsx''\<rparr>) = []"
    using build_match_squad_blank_away[of ratings_example "''Loosehead One''"] by simp
  have e: "evaluate_params blank_away_loader tw ha = Inl (KeyError ''margin'')" for tw ha
    by (rule evaluate_params_raises_on_error_result[OF blank_away_loader_tables m l disjI2[OF t]])
  have "grid_loop blank_away_loader (List.product tactical_weights home_advantages) ([], None)
      = Inl (KeyError ''margin'')"
    by (simp add: tactical_weights_def home_advantages_def e)
  then show ?thesis
    by (simp add: e grid_search_def)
qed


end
